theory Spec2Isabelle
  imports Main
begin

section \<open>Strings and code-point utilities\<close>

text \<open>
  A JavaScript string is modelled by the sequence of its Unicode code points, each a
  natural number; a one-code-point string (an element of \<open>toCodePoints(s)\<close>) is
  represented by its code point. Rows, columns and offsets that the buffer stores are
  natural numbers; the payload of \<open>REPLACE_RANGE\<close>, which the reducer tests for
  negative values, is integer.
\<close>

type_synonym codepoint = nat
type_synonym jsstring = "codepoint list"

text \<open>
  Modelled from the spec: \<open>toCodePoints\<close>, \<open>cpLen\<close> and \<open>cpSlice\<close> are imported
  from \<open>utils/textUtils.js\<close>, which is not among the sources. Section 4.1 of the
  specification describes them: the sequence of single-code-point strings, the count of
  code points, and the substring by code-point indices clamped to \<open>[0, cpLen]\<close> with
  the end defaulting to the end of the string.
\<close>

definition toCodePoints :: "jsstring \<Rightarrow> codepoint list" where
  "toCodePoints s = s"

definition cpLen :: "jsstring \<Rightarrow> nat" where
  "cpLen s = length (toCodePoints s)"

definition cpSlice :: "jsstring \<Rightarrow> nat \<Rightarrow> nat \<Rightarrow> jsstring" where
  "cpSlice s start end' = take (end' - start) (drop start (toCodePoints s))"

definition cpSliceFrom :: "jsstring \<Rightarrow> nat \<Rightarrow> jsstring" where
  "cpSliceFrom s start = drop start (toCodePoints s)"

text \<open>
  Modelled from the spec: the specification's \<open>visualWidth(s)\<close> is the sum of the
  per-code-point terminal cell widths. The width of one code point is the result of the
  external \<open>string-width\<close> package on it, a parameter \<open>stringWidth\<close> of the layouter.
\<close>

definition visualWidth :: "(codepoint \<Rightarrow> nat) \<Rightarrow> jsstring \<Rightarrow> nat" where
  "visualWidth stringWidth s = sum_list (map stringWidth (toCodePoints s))"

text \<open>\<open>String.prototype.length\<close> counts UTF-16 code units.\<close>

definition jsLength :: "jsstring \<Rightarrow> nat" where
  "jsLength s = sum_list (map (\<lambda>c. if c \<ge> 65536 then 2 else (1::nat)) s)"

text \<open>The character class \<open>\s\<close> of a JavaScript regular expression.\<close>

definition isSpaceCp :: "codepoint \<Rightarrow> bool" where
  "isSpaceCp c \<longleftrightarrow>
     (9 \<le> c \<and> c \<le> 13) \<or> c = 32 \<or> c = 160 \<or> c = 5760 \<or> (8192 \<le> c \<and> c \<le> 8202) \<or>
     c = 8232 \<or> c = 8233 \<or> c = 8239 \<or> c = 8287 \<or> c = 12288 \<or> c = 65279"

text \<open>\<open>isWordChar\<close>: \<open>undefined\<close> is \<open>None\<close>; the class is \<open>[\s,.;!?]\<close>.\<close>

definition isWordChar :: "codepoint option \<Rightarrow> bool" where
  "isWordChar ch =
     (case ch of
        None \<Rightarrow> False
      | Some c \<Rightarrow> \<not> (isSpaceCp c \<or> c = 44 \<or> c = 46 \<or> c = 59 \<or> c = 33 \<or> c = 63))"

text \<open>Reading an array element, \<open>undefined\<close> out of range.\<close>

definition at :: "'a list \<Rightarrow> nat \<Rightarrow> 'a option" where
  "at xs i = (if i < length xs then Some (xs ! i) else None)"

text \<open>
  \<open>stripUnsafeCharacters\<close>. The external \<open>strip-ansi\<close> package is the parameter
  \<open>stripAnsi\<close>. A code point whose string has more than one UTF-16 unit
  (\<open>char.length > 1\<close>) lies above the basic plane.
\<close>

definition stripUnsafeCharacters :: "(jsstring \<Rightarrow> jsstring) \<Rightarrow> jsstring \<Rightarrow> jsstring" where
  "stripUnsafeCharacters stripAnsi str =
     (let stripped = stripAnsi str in
      filter (\<lambda>code.
          if code \<ge> 65536 then False
          else (let isUnsafe = (code = 127 \<or> (code \<le> 31 \<and> code \<noteq> 13 \<and> code \<noteq> 10))
                in \<not> isUnsafe))
        (toCodePoints (stripAnsi stripped)))"

definition clamp :: "nat \<Rightarrow> nat \<Rightarrow> nat \<Rightarrow> nat" where
  "clamp v mn mx = (if v < mn then mn else if v > mx then mx else v)"

definition clampInt :: "int \<Rightarrow> int \<Rightarrow> int \<Rightarrow> int" where
  "clampInt v mn mx = (if v < mn then mn else if v > mx then mx else v)"

text \<open>\<open>s.split('\n')\<close>: never empty.\<close>

fun splitNL :: "jsstring \<Rightarrow> jsstring list" where
  "splitNL [] = [[]]"
| "splitNL (c # cs) =
     (if c = 10 then [] # splitNL cs
      else (c # hd (splitNL cs)) # tl (splitNL cs))"

text \<open>\<open>xs.join('\n')\<close>.\<close>

fun joinNL :: "jsstring list \<Rightarrow> jsstring" where
  "joinNL [] = []"
| "joinNL [l] = l"
| "joinNL (l # ls) = l @ 10 # joinNL ls"

text \<open>\<open>s.replace(/\r\n?/g, '\n')\<close>.\<close>

fun replaceCRLFopt :: "jsstring \<Rightarrow> jsstring" where
  "replaceCRLFopt [] = []"
| "replaceCRLFopt [c] = (if c = 13 then [10] else [c])"
| "replaceCRLFopt (c # d # cs) =
     (if c = 13 \<and> d = 10 then 10 # replaceCRLFopt cs
      else if c = 13 then 10 # replaceCRLFopt (d # cs)
      else c # replaceCRLFopt (d # cs))"

text \<open>\<open>s.replace(/\r\n/g, '\n')\<close> and \<open>s.replace(/\r/g, '\n')\<close>.\<close>

fun replaceCRLF :: "jsstring \<Rightarrow> jsstring" where
  "replaceCRLF [] = []"
| "replaceCRLF [c] = [c]"
| "replaceCRLF (c # d # cs) =
     (if c = 13 \<and> d = 10 then 10 # replaceCRLF cs else c # replaceCRLF (d # cs))"

definition replaceCR :: "jsstring \<Rightarrow> jsstring" where
  "replaceCR s = map (\<lambda>c. if c = 13 then 10 else c) s"

section \<open>Position mapper\<close>

function offsetLoop :: "jsstring list \<Rightarrow> nat \<Rightarrow> nat \<Rightarrow> nat \<Rightarrow> nat \<times> nat" where
  "offsetLoop lines offset i currentOffset =
     (if i < length lines then
        (let line = lines ! i;
             lineLength = cpLen line;
             lineLengthWithNewline = lineLength + (if i < length lines - 1 then 1 else 0)
         in if offset \<le> currentOffset + lineLength then (i, offset - currentOffset)
            else if offset \<le> currentOffset + lineLengthWithNewline then
              (if offset = currentOffset + lineLengthWithNewline \<and> i < length lines - 1
               then (i + 1, 0)
               else (i, lineLength))
            else offsetLoop lines offset (i + 1) (currentOffset + lineLengthWithNewline))
      else if length lines > 0 then (length lines - 1, cpLen (lines ! (length lines - 1)))
      else (0, 0))"
  by pat_completeness auto
termination
  by (relation "measure (\<lambda>(lines, offset, i, currentOffset). length lines - i)") auto

declare offsetLoop.simps [simp del]

definition offsetToLogicalPos :: "jsstring \<Rightarrow> nat \<Rightarrow> nat \<times> nat" where
  "offsetToLogicalPos text offset =
     (if offset = 0 then (0, 0) else offsetLoop (splitNL text) offset 0 0)"

text \<open>
  The offset at which line \<open>i\<close> starts: the lengths of the lines before it, each
  followed by one separator.
\<close>

definition lineStart :: "jsstring list \<Rightarrow> nat \<Rightarrow> nat" where
  "lineStart lines i = sum_list (map (\<lambda>l. cpLen l + 1) (take i lines))"

section \<open>Buffer state and actions\<close>

record UndoHistoryEntry =
  h_lines :: "jsstring list"
  h_cursorRow :: nat
  h_cursorCol :: nat

record TextBufferState =
  lines :: "jsstring list"
  cursorRow :: nat
  cursorCol :: nat
  preferredCol :: "nat option"
  undoStack :: "UndoHistoryEntry list"
  redoStack :: "UndoHistoryEntry list"
  clipboard :: "jsstring option"
  selectionAnchor :: "(nat \<times> nat) option"

datatype Direction = DirLeft | DirRight | DirUp | DirDown | DirWordLeft | DirWordRight
  | DirHome | DirEnd

datatype UpdateOperation = OpInsert jsstring | OpBackspace

record VisualLayout =
  visualLines :: "jsstring list"
  visualCursor :: "nat \<times> nat"
  logicalToVisualMap :: "(nat \<times> nat) list list"
  visualToLogicalMap :: "(nat \<times> nat) list"

datatype TextBufferAction =
    SET_TEXT jsstring bool
  | APPLY_OPERATIONS "UpdateOperation list"
  | MOVE Direction VisualLayout
  | DELETE
  | DELETE_WORD_LEFT
  | DELETE_WORD_RIGHT
  | KILL_LINE_RIGHT
  | KILL_LINE_LEFT
  | UNDO
  | REDO
  | REPLACE_RANGE int int int int jsstring
  | MOVE_TO_OFFSET jsstring nat
  | COPY
  | PASTE
  | START_SELECTION

definition historyLimit :: nat where
  "historyLimit = 100"

text \<open>
  Array primitives. An assignment \<open>a[i] = v\<close> past the end extends the array; the
  elements it skips read as \<open>undefined\<close>, which every read of a line in the reducer
  replaces by the empty string (\<open>?? ''\<close>), so they are stored as empty strings.
  \<open>a.splice(start, deleteCount, ...items)\<close> clamps \<open>start\<close> to the length.
\<close>

definition setAt :: "jsstring list \<Rightarrow> nat \<Rightarrow> jsstring \<Rightarrow> jsstring list" where
  "setAt xs i v =
     (if i < length xs then xs[i := v] else xs @ replicate (i - length xs) [] @ [v])"

definition splice :: "'a list \<Rightarrow> nat \<Rightarrow> nat \<Rightarrow> 'a list \<Rightarrow> 'a list" where
  "splice xs start deleteCount items = take start xs @ items @ drop (start + deleteCount) xs"

text \<open>\<open>ls[r] ?? ''\<close>.\<close>

definition lineAt :: "jsstring list \<Rightarrow> nat \<Rightarrow> jsstring" where
  "lineAt ls r = (case at ls r of None \<Rightarrow> [] | Some l \<Rightarrow> l)"

definition pushUndo :: "TextBufferState \<Rightarrow> TextBufferState" where
  "pushUndo currentState =
     (let snapshot = \<lparr>h_lines = lines currentState,
                      h_cursorRow = cursorRow currentState,
                      h_cursorCol = cursorCol currentState\<rparr>;
          newStack = undoStack currentState @ [snapshot];
          newStack' = (if length newStack > historyLimit then tl newStack else newStack)
      in currentState\<lparr>undoStack := newStack', redoStack := []\<rparr>)"

definition currentLine :: "TextBufferState \<Rightarrow> nat \<Rightarrow> jsstring" where
  "currentLine state r = lineAt (lines state) r"

definition currentLineLen :: "TextBufferState \<Rightarrow> nat \<Rightarrow> nat" where
  "currentLineLen state r = cpLen (currentLine state r)"

subsection \<open>APPLY_OPERATIONS\<close>

text \<open>
  The expansion of one insert payload: code point 127 becomes a backspace operation and
  splits the text around it. The arguments are the code points still to read and
  \<open>currentText\<close>.
\<close>

fun expandInsert :: "codepoint list \<Rightarrow> jsstring \<Rightarrow> UpdateOperation list" where
  "expandInsert [] currentText =
     (if jsLength currentText > 0 then [OpInsert currentText] else [])"
| "expandInsert (char # rest) currentText =
     (if char = 127 then
        (if jsLength currentText > 0 then [OpInsert currentText] else [])
          @ OpBackspace # expandInsert rest []
      else expandInsert rest (currentText @ [char]))"

fun expandOps :: "UpdateOperation list \<Rightarrow> UpdateOperation list" where
  "expandOps [] = []"
| "expandOps (OpInsert payload # ops) = expandInsert (toCodePoints payload) [] @ expandOps ops"
| "expandOps (OpBackspace # ops) = OpBackspace # expandOps ops"

text \<open>
  The text insertion at the cursor that the insert operation and \<open>PASTE\<close> share word
  for word: \<open>str\<close> is the stripped, normalised text. The result is the new lines and
  the new cursor.
\<close>

definition insertStr ::
  "jsstring list \<Rightarrow> nat \<Rightarrow> nat \<Rightarrow> jsstring \<Rightarrow> jsstring list \<times> nat \<times> nat" where
  "insertStr newLines newCursorRow newCursorCol str =
     (let parts = splitNL str;
          lineContent = lineAt newLines newCursorRow;
          lineBefore = cpSlice lineContent 0 newCursorCol;
          lineAfter = cpSliceFrom lineContent newCursorCol
      in if length parts > 1 then
           (let newLines1 = setAt newLines newCursorRow (lineBefore @ hd parts);
                remainingParts = tl parts;
                lastPartOriginal = last remainingParts;
                remainingParts' = butlast remainingParts;
                newLines2 = splice newLines1 (newCursorRow + 1) 0 remainingParts';
                newLines3 = splice newLines2 (newCursorRow + length parts - 1) 0
                              [lastPartOriginal @ lineAfter]
            in (newLines3, newCursorRow + length parts - 1, cpLen lastPartOriginal))
         else
           (setAt newLines newCursorRow (lineBefore @ hd parts @ lineAfter),
            newCursorRow, cpLen lineBefore + cpLen (hd parts)))"

definition applyOp ::
  "(jsstring \<Rightarrow> jsstring) \<Rightarrow> jsstring list \<times> nat \<times> nat \<Rightarrow> UpdateOperation
     \<Rightarrow> jsstring list \<times> nat \<times> nat" where
  "applyOp stripAnsi st op =
     (case st of (newLines, newCursorRow, newCursorCol) \<Rightarrow>
       (case op of
          OpInsert payload \<Rightarrow>
            insertStr newLines newCursorRow newCursorCol
              (stripUnsafeCharacters stripAnsi (replaceCR (replaceCRLF payload)))
        | OpBackspace \<Rightarrow>
            if newCursorCol = 0 \<and> newCursorRow = 0 then st
            else if newCursorCol > 0 then
              (let lineContent = lineAt newLines newCursorRow
               in (setAt newLines newCursorRow
                     (cpSlice lineContent 0 (newCursorCol - 1) @ cpSliceFrom lineContent newCursorCol),
                   newCursorRow, newCursorCol - 1))
            else if newCursorRow > 0 then
              (let prevLineContent = lineAt newLines (newCursorRow - 1);
                   currentLineContentVal = lineAt newLines newCursorRow;
                   newCol = cpLen prevLineContent;
                   newLines1 = setAt newLines (newCursorRow - 1)
                                 (prevLineContent @ currentLineContentVal)
               in (splice newLines1 newCursorRow 1 [], newCursorRow - 1, newCol))
            else st))"

definition applyOperations_action ::
  "(jsstring \<Rightarrow> jsstring) \<Rightarrow> TextBufferState \<Rightarrow> UpdateOperation list \<Rightarrow> TextBufferState" where
  "applyOperations_action stripAnsi state payload =
     (if length payload = 0 then state
      else
        (let expandedOps = expandOps payload
         in if length expandedOps = 0 then state
            else
              (let nextState = pushUndo state;
                   r = foldl (applyOp stripAnsi)
                         (lines nextState, cursorRow nextState, cursorCol nextState) expandedOps
               in nextState\<lparr>lines := fst r, cursorRow := fst (snd r),
                              cursorCol := snd (snd r), preferredCol := None\<rparr>)))"

subsection \<open>Word scans\<close>

text \<open>\<open>while (start > 0 && !isWordChar(arr[start - 1])) start--\<close> and its twin.\<close>

fun skipNonWordLeft :: "codepoint list \<Rightarrow> nat \<Rightarrow> nat" where
  "skipNonWordLeft arr 0 = 0"
| "skipNonWordLeft arr (Suc k) =
     (if \<not> isWordChar (at arr k) then skipNonWordLeft arr k else Suc k)"

fun skipWordLeft :: "codepoint list \<Rightarrow> nat \<Rightarrow> nat" where
  "skipWordLeft arr 0 = 0"
| "skipWordLeft arr (Suc k) =
     (if isWordChar (at arr k) then skipWordLeft arr k else Suc k)"

text \<open>\<open>while (end < arr.length && !isWordChar(arr[end])) end++\<close> and its twin.\<close>

function skipNonWordRight :: "codepoint list \<Rightarrow> nat \<Rightarrow> nat" where
  "skipNonWordRight arr end' =
     (if end' < length arr \<and> \<not> isWordChar (at arr end')
      then skipNonWordRight arr (end' + 1) else end')"
  by pat_completeness auto
termination
  by (relation "measure (\<lambda>(arr, end'). length arr - end')") auto

declare skipNonWordRight.simps [simp del]

function skipWordRight :: "codepoint list \<Rightarrow> nat \<Rightarrow> nat" where
  "skipWordRight arr end' =
     (if end' < length arr \<and> isWordChar (at arr end')
      then skipWordRight arr (end' + 1) else end')"
  by pat_completeness auto
termination
  by (relation "measure (\<lambda>(arr, end'). length arr - end')") auto

declare skipWordRight.simps [simp del]

subsection \<open>The reducer, case by case\<close>

definition setText_action :: "TextBufferState \<Rightarrow> jsstring \<Rightarrow> bool \<Rightarrow> TextBufferState" where
  "setText_action state payload pushToUndo =
     (let nextState = (if pushToUndo \<noteq> False then pushUndo state else state);
          newContentLines = splitNL (replaceCRLFopt payload);
          lines' = (if length newContentLines = 0 then [[]] else newContentLines);
          lastNewLineIndex = length lines' - 1
      in nextState\<lparr>lines := lines', cursorRow := lastNewLineIndex,
                     cursorCol := cpLen (lineAt lines' lastNewLineIndex),
                     preferredCol := None\<rparr>)"

definition move_action :: "TextBufferState \<Rightarrow> Direction \<Rightarrow> VisualLayout \<Rightarrow> TextBufferState" where
  "move_action state dir visualLayout =
     (let vls = visualLines visualLayout;
          newVisualRow = fst (visualCursor visualLayout);
          newVisualCol = snd (visualCursor visualLayout);
          newPreferredCol = preferredCol state;
          currentVisLineLen = cpLen (lineAt vls newVisualRow);
          r = (case dir of
                 DirLeft \<Rightarrow>
                   (if newVisualCol > 0 then (newVisualRow, newVisualCol - 1, None)
                    else if newVisualRow > 0
                    then (newVisualRow - 1, cpLen (lineAt vls (newVisualRow - 1)), None)
                    else (newVisualRow, newVisualCol, None))
               | DirRight \<Rightarrow>
                   (if newVisualCol < currentVisLineLen then (newVisualRow, newVisualCol + 1, None)
                    else if int newVisualRow < int (length vls) - 1
                    then (newVisualRow + 1, 0, None)
                    else (newVisualRow, newVisualCol, None))
               | DirUp \<Rightarrow>
                   (if newVisualRow > 0 then
                      (let p = (case newPreferredCol of None \<Rightarrow> newVisualCol | Some c \<Rightarrow> c)
                       in (newVisualRow - 1,
                           clamp p 0 (cpLen (lineAt vls (newVisualRow - 1))), Some p))
                    else (newVisualRow, newVisualCol, newPreferredCol))
               | DirDown \<Rightarrow>
                   (if int newVisualRow < int (length vls) - 1 then
                      (let p = (case newPreferredCol of None \<Rightarrow> newVisualCol | Some c \<Rightarrow> c)
                       in (newVisualRow + 1,
                           clamp p 0 (cpLen (lineAt vls (newVisualRow + 1))), Some p))
                    else (newVisualRow, newVisualCol, newPreferredCol))
               | DirHome \<Rightarrow> (newVisualRow, 0, None)
               | DirEnd \<Rightarrow> (newVisualRow, currentVisLineLen, None)
               | _ \<Rightarrow> (newVisualRow, newVisualCol, newPreferredCol))
      in (case r of (newVisualRow', newVisualCol', newPreferredCol') \<Rightarrow>
           (case at (visualToLogicalMap visualLayout) newVisualRow' of
              Some (logRow, logStartCol) \<Rightarrow>
                state\<lparr>cursorRow := logRow,
                      cursorCol := clamp (logStartCol + newVisualCol') 0
                                     (cpLen (lineAt (lines state) logRow)),
                      preferredCol := newPreferredCol'\<rparr>
            | None \<Rightarrow> state)))"

definition delete_action :: "TextBufferState \<Rightarrow> TextBufferState" where
  "delete_action state =
     (let lineContent = currentLine state (cursorRow state)
      in if cursorCol state < currentLineLen state (cursorRow state) then
           (let nextState = pushUndo state;
                newLines = setAt (lines nextState) (cursorRow state)
                             (cpSlice lineContent 0 (cursorCol state)
                                @ cpSliceFrom lineContent (cursorCol state + 1))
            in nextState\<lparr>lines := newLines, preferredCol := None\<rparr>)
         else if int (cursorRow state) < int (length (lines state)) - 1 then
           (let nextState = pushUndo state;
                nextLineContent = currentLine state (cursorRow state + 1);
                newLines = setAt (lines nextState) (cursorRow state)
                             (lineContent @ nextLineContent)
            in nextState\<lparr>lines := splice newLines (cursorRow state + 1) 1 [],
                           preferredCol := None\<rparr>)
         else state)"

definition deleteWordLeft_action :: "TextBufferState \<Rightarrow> TextBufferState" where
  "deleteWordLeft_action state =
     (if cursorCol state = 0 \<and> cursorRow state = 0 then state
      else if cursorCol state = 0 then
        (let nextState = pushUndo state;
             prevLineContent = currentLine state (cursorRow state - 1);
             currentLineContentVal = currentLine state (cursorRow state);
             newCol = cpLen prevLineContent;
             newLines = setAt (lines nextState) (cursorRow state - 1)
                          (prevLineContent @ currentLineContentVal)
         in nextState\<lparr>lines := splice newLines (cursorRow state) 1 [],
                        cursorRow := cursorRow state - 1, cursorCol := newCol,
                        preferredCol := None\<rparr>)
      else
        (let nextState = pushUndo state;
             lineContent = currentLine state (cursorRow state);
             arr = toCodePoints lineContent;
             start = cursorCol state;
             onlySpaces = \<not> list_ex (\<lambda>i. isWordChar (at arr i)) [0..<start];
             start' = (if onlySpaces \<and> start > 0 then start - 1
                       else skipWordLeft arr (skipNonWordLeft arr start));
             newLines = setAt (lines nextState) (cursorRow state)
                          (cpSlice lineContent 0 start' @ cpSliceFrom lineContent (cursorCol state))
         in nextState\<lparr>lines := newLines, cursorCol := start', preferredCol := None\<rparr>))"

definition deleteWordRight_action :: "TextBufferState \<Rightarrow> TextBufferState" where
  "deleteWordRight_action state =
     (let lineContent = currentLine state (cursorRow state);
          arr = toCodePoints lineContent
      in if cursorCol state \<ge> length arr \<and> int (cursorRow state) = int (length (lines state)) - 1
         then state
         else if cursorCol state \<ge> length arr then
           (let nextState = pushUndo state;
                nextLineContent = currentLine state (cursorRow state + 1);
                newLines = setAt (lines nextState) (cursorRow state)
                             (lineContent @ nextLineContent)
            in nextState\<lparr>lines := splice newLines (cursorRow state + 1) 1 [],
                           preferredCol := None\<rparr>)
         else
           (let nextState = pushUndo state;
                end' = skipWordRight arr (skipNonWordRight arr (cursorCol state));
                newLines = setAt (lines nextState) (cursorRow state)
                             (cpSlice lineContent 0 (cursorCol state) @ cpSliceFrom lineContent end')
            in nextState\<lparr>lines := newLines, preferredCol := None\<rparr>))"

definition killLineRight_action :: "TextBufferState \<Rightarrow> TextBufferState" where
  "killLineRight_action state =
     (let lineContent = currentLine state (cursorRow state)
      in if cursorCol state < currentLineLen state (cursorRow state) then
           (let nextState = pushUndo state;
                newLines = setAt (lines nextState) (cursorRow state)
                             (cpSlice lineContent 0 (cursorCol state))
            in nextState\<lparr>lines := newLines\<rparr>)
         else if int (cursorRow state) < int (length (lines state)) - 1 then
           (let nextState = pushUndo state;
                nextLineContent = currentLine state (cursorRow state + 1);
                newLines = setAt (lines nextState) (cursorRow state)
                             (lineContent @ nextLineContent)
            in nextState\<lparr>lines := splice newLines (cursorRow state + 1) 1 [],
                           preferredCol := None\<rparr>)
         else state)"

definition killLineLeft_action :: "TextBufferState \<Rightarrow> TextBufferState" where
  "killLineLeft_action state =
     (if cursorCol state > 0 then
        (let nextState = pushUndo state;
             lineContent = currentLine state (cursorRow state);
             newLines = setAt (lines nextState) (cursorRow state)
                          (cpSliceFrom lineContent (cursorCol state))
         in nextState\<lparr>lines := newLines, cursorCol := 0, preferredCol := None\<rparr>)
      else state)"

definition undo_action :: "TextBufferState \<Rightarrow> TextBufferState" where
  "undo_action state =
     (case at (undoStack state) (length (undoStack state) - 1) of
        None \<Rightarrow> state
      | Some stateToRestore \<Rightarrow>
          (let currentSnapshot = \<lparr>h_lines = lines state, h_cursorRow = cursorRow state,
                                   h_cursorCol = cursorCol state\<rparr>
           in state\<lparr>lines := h_lines stateToRestore,
                    cursorRow := h_cursorRow stateToRestore,
                    cursorCol := h_cursorCol stateToRestore,
                    undoStack := butlast (undoStack state),
                    redoStack := redoStack state @ [currentSnapshot]\<rparr>))"

definition redo_action :: "TextBufferState \<Rightarrow> TextBufferState" where
  "redo_action state =
     (case at (redoStack state) (length (redoStack state) - 1) of
        None \<Rightarrow> state
      | Some stateToRestore \<Rightarrow>
          (let currentSnapshot = \<lparr>h_lines = lines state, h_cursorRow = cursorRow state,
                                   h_cursorCol = cursorCol state\<rparr>
           in state\<lparr>lines := h_lines stateToRestore,
                    cursorRow := h_cursorRow stateToRestore,
                    cursorCol := h_cursorCol stateToRestore,
                    redoStack := butlast (redoStack state),
                    undoStack := undoStack state @ [currentSnapshot]\<rparr>))"

definition paste_action :: "(jsstring \<Rightarrow> jsstring) \<Rightarrow> TextBufferState \<Rightarrow> TextBufferState" where
  "paste_action stripAnsi state =
     (case clipboard state of
        None \<Rightarrow> state
      | Some clip \<Rightarrow>
          (let nextState = pushUndo state;
               pasteContent = stripUnsafeCharacters stripAnsi (replaceCR (replaceCRLF clip));
               r = insertStr (lines nextState) (cursorRow nextState) (cursorCol nextState)
                     pasteContent
           in nextState\<lparr>lines := fst r, cursorRow := fst (snd r), cursorCol := snd (snd r),
                          preferredCol := None\<rparr>))"

text \<open>
  \<open>REPLACE_RANGE\<close>. The validity test is the source's disjunction; past it
  \<open>startRow\<close>, \<open>startCol\<close> and \<open>endRow\<close> are not negative, and the columns
  are clamped before they are used.
\<close>

definition replaceRangeInvalid ::
  "TextBufferState \<Rightarrow> int \<Rightarrow> int \<Rightarrow> int \<Rightarrow> int \<Rightarrow> bool" where
  "replaceRangeInvalid state startRow startCol endRow endCol \<longleftrightarrow>
     startRow > endRow \<or>
     (startRow = endRow \<and> startCol > endCol) \<or>
     startRow < 0 \<or>
     startCol < 0 \<or>
     endRow \<ge> int (length (lines state)) \<or>
     (endRow < int (length (lines state)) \<and> endCol > int (currentLineLen state (nat endRow)))"

definition replaceRange_action ::
  "TextBufferState \<Rightarrow> int \<Rightarrow> int \<Rightarrow> int \<Rightarrow> int \<Rightarrow> jsstring \<Rightarrow> TextBufferState" where
  "replaceRange_action state startRow startCol endRow endCol text =
     (if replaceRangeInvalid state startRow startCol endRow endCol then state
      else
        (let nextState = pushUndo state;
             newLines = lines nextState;
             sRow = nat startRow;
             eRow = nat endRow;
             sCol = nat (clampInt startCol 0 (int (currentLineLen state sRow)));
             eCol = nat (clampInt endCol 0 (int (currentLineLen state eRow)));
             prefix = cpSlice (currentLine state sRow) 0 sCol;
             suffix = cpSliceFrom (currentLine state eRow) eCol;
             normalisedReplacement = replaceCR (replaceCRLF text);
             replacementParts = splitNL normalisedReplacement;
             newLines' =
               (if startRow = endRow then
                  setAt newLines sRow (prefix @ normalisedReplacement @ suffix)
                else
                  (let firstLine = prefix @ hd replacementParts
                   in if length replacementParts = 1 then
                        splice newLines sRow (eRow - sRow + 1) [firstLine @ suffix]
                      else
                        (let lastLine = last replacementParts @ suffix;
                             middleLines = butlast (tl replacementParts)
                         in splice newLines sRow (eRow - sRow + 1)
                              ([firstLine] @ middleLines @ [lastLine]))));
             finalCursorRow = sRow + length replacementParts - 1;
             finalCursorCol = (if length replacementParts > 1 then 0 else sCol)
                                + cpLen (last replacementParts)
         in nextState\<lparr>lines := newLines', cursorRow := finalCursorRow,
                        cursorCol := finalCursorCol, preferredCol := None\<rparr>))"

definition moveToOffset_action :: "TextBufferState \<Rightarrow> jsstring \<Rightarrow> nat \<Rightarrow> TextBufferState" where
  "moveToOffset_action state text offset =
     (let p = offsetToLogicalPos text offset
      in state\<lparr>cursorRow := fst p, cursorCol := snd p, preferredCol := None\<rparr>)"

definition copy_action :: "TextBufferState \<Rightarrow> TextBufferState" where
  "copy_action state =
     (case selectionAnchor state of
        None \<Rightarrow> state
      | Some (ar, ac) \<Rightarrow>
          (let br = cursorRow state; bc = cursorCol state
           in if ar = br \<and> ac = bc then state
              else
                (let topBefore = (ar < br \<or> (ar = br \<and> ac < bc));
                     sr = (if topBefore then ar else br);
                     sc = (if topBefore then ac else bc);
                     er = (if topBefore then br else ar);
                     ec = (if topBefore then bc else ac);
                     selectedTextVal =
                       (if sr = er then cpSlice (currentLine state sr) sc ec
                        else joinNL ([cpSliceFrom (currentLine state sr) sc]
                                       @ map (currentLine state) [sr + 1..<er]
                                       @ [cpSlice (currentLine state er) 0 ec]))
                 in state\<lparr>clipboard := Some selectedTextVal\<rparr>)))"

definition startSelection_action :: "TextBufferState \<Rightarrow> TextBufferState" where
  "startSelection_action state =
     state\<lparr>selectionAnchor := Some (cursorRow state, cursorCol state)\<rparr>"

fun textBufferReducer ::
  "(jsstring \<Rightarrow> jsstring) \<Rightarrow> TextBufferState \<Rightarrow> TextBufferAction \<Rightarrow> TextBufferState" where
  "textBufferReducer stripAnsi state (SET_TEXT payload pushToUndo) =
     setText_action state payload pushToUndo"
| "textBufferReducer stripAnsi state (APPLY_OPERATIONS payload) =
     applyOperations_action stripAnsi state payload"
| "textBufferReducer stripAnsi state (MOVE dir visualLayout) =
     move_action state dir visualLayout"
| "textBufferReducer stripAnsi state DELETE = delete_action state"
| "textBufferReducer stripAnsi state DELETE_WORD_LEFT = deleteWordLeft_action state"
| "textBufferReducer stripAnsi state DELETE_WORD_RIGHT = deleteWordRight_action state"
| "textBufferReducer stripAnsi state KILL_LINE_RIGHT = killLineRight_action state"
| "textBufferReducer stripAnsi state KILL_LINE_LEFT = killLineLeft_action state"
| "textBufferReducer stripAnsi state UNDO = undo_action state"
| "textBufferReducer stripAnsi state REDO = redo_action state"
| "textBufferReducer stripAnsi state PASTE = paste_action stripAnsi state"
| "textBufferReducer stripAnsi state (REPLACE_RANGE startRow startCol endRow endCol text) =
     replaceRange_action state startRow startCol endRow endCol text"
| "textBufferReducer stripAnsi state (MOVE_TO_OFFSET text offset) =
     moveToOffset_action state text offset"
| "textBufferReducer stripAnsi state COPY = copy_action state"
| "textBufferReducer stripAnsi state START_SELECTION = startSelection_action state"

section \<open>Visual layouter\<close>

text \<open>
  The inner \<open>for\<close> loop of \<open>calculateVisualLayout\<close>, which builds one chunk from
  position \<open>currentPosInLogLine\<close>. The result is \<open>currentChunk\<close> and
  \<open>numCodePointsInChunk\<close> when the loop ends or breaks.
\<close>

function chunkLoop ::
  "(codepoint \<Rightarrow> nat) \<Rightarrow> nat \<Rightarrow> codepoint list \<Rightarrow> nat \<Rightarrow> nat \<Rightarrow> jsstring \<Rightarrow> nat \<Rightarrow> nat
     \<Rightarrow> int \<Rightarrow> nat \<Rightarrow> jsstring \<times> nat" where
  "chunkLoop stringWidth viewportWidth codePointsInLogLine currentPosInLogLine i
       currentChunk currentChunkVisualWidth numCodePointsInChunk
       lastWordBreakPoint numCodePointsAtLastWordBreak =
     (if i < length codePointsInLogLine then
        (let char = codePointsInLogLine ! i;
             charVisualWidth = stringWidth char
         in if currentChunkVisualWidth + charVisualWidth > viewportWidth then
              (if lastWordBreakPoint \<noteq> -1 \<and> numCodePointsAtLastWordBreak > 0 \<and>
                  currentPosInLogLine + numCodePointsAtLastWordBreak < i
               then (take numCodePointsAtLastWordBreak
                       (drop currentPosInLogLine codePointsInLogLine),
                     numCodePointsAtLastWordBreak)
               else if numCodePointsInChunk = 0 \<and> charVisualWidth > viewportWidth
               then ([char], 1)
               else (currentChunk, numCodePointsInChunk))
            else
              (if char = 32 then
                 chunkLoop stringWidth viewportWidth codePointsInLogLine currentPosInLogLine
                   (i + 1) (currentChunk @ [char]) (currentChunkVisualWidth + charVisualWidth)
                   (numCodePointsInChunk + 1) (int i) (numCodePointsInChunk + 1 - 1)
               else
                 chunkLoop stringWidth viewportWidth codePointsInLogLine currentPosInLogLine
                   (i + 1) (currentChunk @ [char]) (currentChunkVisualWidth + charVisualWidth)
                   (numCodePointsInChunk + 1) lastWordBreakPoint numCodePointsAtLastWordBreak))
      else (currentChunk, numCodePointsInChunk))"
  by pat_completeness auto
termination
  by (relation "measure (\<lambda>(sw, vw, cps, pos, i, rest). length cps - i)") auto

declare chunkLoop.simps [simp del]

text \<open>Appending to \<open>logicalToVisualMap[logIndex]\<close>.\<close>

definition pushAt :: "'a list list \<Rightarrow> nat \<Rightarrow> 'a \<Rightarrow> 'a list list" where
  "pushAt m k x = (if k < length m then m[k := m ! k @ [x]] else m)"

text \<open>
  One chunk with the two fix-ups that follow the inner loop: a chunk that is still empty
  takes the code point at the current position.
\<close>

definition nextChunk ::
  "(codepoint \<Rightarrow> nat) \<Rightarrow> nat \<Rightarrow> codepoint list \<Rightarrow> nat \<Rightarrow> jsstring \<times> nat" where
  "nextChunk stringWidth viewportWidth cps pos =
     (let r0 = chunkLoop stringWidth viewportWidth cps pos pos [] 0 0 (-1) 0;
          r1 = (if snd r0 = 0 \<and> pos < length cps then ([cps ! pos], 1) else r0);
          r2 = (if snd r1 = 0 \<and> pos < length cps then ([cps ! pos], 1) else r1)
      in r2)"

text \<open>Where the next chunk starts: one space after a chunk is skipped as the delimiter.\<close>

definition advancePos :: "codepoint list \<Rightarrow> nat \<Rightarrow> nat \<Rightarrow> nat" where
  "advancePos cps pos numCodePointsInChunk =
     (let logicalStartOfThisChunk = pos;
          pos' = pos + numCodePointsInChunk
      in if logicalStartOfThisChunk + numCodePointsInChunk < length cps \<and>
            pos' < length cps \<and> cps ! pos' = 32
         then pos' + 1 else pos')"

text \<open>The cursor mapping done after each chunk is pushed.\<close>

definition mapCursor :: "nat \<times> nat \<Rightarrow> nat \<Rightarrow> nat \<Rightarrow> nat \<Rightarrow> VisualLayout \<Rightarrow> VisualLayout" where
  "mapCursor logicalCursor logIndex pos numCodePointsInChunk acc =
     (if logIndex = fst logicalCursor then
        (let cursorLogCol = snd logicalCursor
         in if cursorLogCol \<ge> pos \<and> cursorLogCol < pos + numCodePointsInChunk then
              acc\<lparr>visualCursor := (length (visualLines acc) - 1, cursorLogCol - pos)\<rparr>
            else if cursorLogCol = pos + numCodePointsInChunk \<and> numCodePointsInChunk > 0 then
              acc\<lparr>visualCursor := (length (visualLines acc) - 1, numCodePointsInChunk)\<rparr>
            else acc)
      else acc)"

text \<open>The \<open>while\<close> loop over one non-empty logical line.\<close>

function wrapLoop ::
  "(codepoint \<Rightarrow> nat) \<Rightarrow> nat \<Rightarrow> nat \<times> nat \<Rightarrow> nat \<Rightarrow> codepoint list \<Rightarrow> nat
     \<Rightarrow> VisualLayout \<Rightarrow> VisualLayout" where
  "wrapLoop stringWidth viewportWidth logicalCursor logIndex codePointsInLogLine
       currentPosInLogLine acc =
     (if currentPosInLogLine < length codePointsInLogLine then
        (let r = nextChunk stringWidth viewportWidth codePointsInLogLine currentPosInLogLine;
             currentChunk = fst r;
             numCodePointsInChunk = snd r;
             acc1 = acc\<lparr>logicalToVisualMap :=
                          pushAt (logicalToVisualMap acc) logIndex
                            (length (visualLines acc), currentPosInLogLine),
                        visualToLogicalMap :=
                          visualToLogicalMap acc @ [(logIndex, currentPosInLogLine)],
                        visualLines := visualLines acc @ [currentChunk]\<rparr>;
             acc2 = mapCursor logicalCursor logIndex currentPosInLogLine numCodePointsInChunk acc1
         in wrapLoop stringWidth viewportWidth logicalCursor logIndex codePointsInLogLine
              (advancePos codePointsInLogLine currentPosInLogLine numCodePointsInChunk) acc2)
      else acc)"
  by pat_completeness auto
termination
proof (relation "measure (\<lambda>(sw, vw, lc, li, cps, pos, acc). length cps - pos)")
  show "wf (measure (\<lambda>(sw, vw, lc, li, cps, pos, acc). length cps - pos))" by simp
next
  fix stringWidth :: "codepoint \<Rightarrow> nat" and viewportWidth :: nat and logicalCursor :: "nat \<times> nat"
    and logIndex :: nat and cps :: "codepoint list" and pos :: nat and acc :: VisualLayout
    and r currentChunk n acc1 acc2
  assume "pos < length cps" and "r = nextChunk stringWidth viewportWidth cps pos"
    and "n = snd r"
  then have "0 < n" by (simp add: nextChunk_def Let_def)
  then have "pos < advancePos cps pos n" by (simp add: advancePos_def Let_def)
  with \<open>pos < length cps\<close>
  show "((stringWidth, viewportWidth, logicalCursor, logIndex, cps, advancePos cps pos n, acc2),
         (stringWidth, viewportWidth, logicalCursor, logIndex, cps, pos, acc))
        \<in> measure (\<lambda>(sw, vw, lc, li, cps, pos, acc). length cps - pos)"
    by simp
qed

declare wrapLoop.simps [simp del]

text \<open>The body of \<open>logicalLines.forEach\<close>.\<close>

definition layoutLine ::
  "(codepoint \<Rightarrow> nat) \<Rightarrow> nat \<Rightarrow> nat \<times> nat \<Rightarrow> VisualLayout \<Rightarrow> nat \<times> jsstring \<Rightarrow> VisualLayout" where
  "layoutLine stringWidth viewportWidth logicalCursor acc p =
     (case p of (logIndex, logLine) \<Rightarrow>
       (let acc0 = acc\<lparr>logicalToVisualMap := logicalToVisualMap acc @ [[]]\<rparr>
        in if jsLength logLine = 0 then
             (let acc1 = acc0\<lparr>logicalToVisualMap :=
                                pushAt (logicalToVisualMap acc0) logIndex
                                  (length (visualLines acc0), 0),
                              visualToLogicalMap := visualToLogicalMap acc0 @ [(logIndex, 0)],
                              visualLines := visualLines acc0 @ [[]]\<rparr>
              in if logIndex = fst logicalCursor \<and> snd logicalCursor = 0
                 then acc1\<lparr>visualCursor := (length (visualLines acc1) - 1, 0)\<rparr>
                 else acc1)
           else
             (let codePointsInLogLine = toCodePoints logLine;
                  acc1 = wrapLoop stringWidth viewportWidth logicalCursor logIndex
                           codePointsInLogLine 0 acc0
              in if logIndex = fst logicalCursor \<and>
                    snd logicalCursor = length codePointsInLogLine
                 then
                   (case at (visualLines acc1) (length (visualLines acc1) - 1) of
                      Some l \<Rightarrow>
                        (if visualLines acc1 \<noteq> []
                         then acc1\<lparr>visualCursor := (length (visualLines acc1) - 1, cpLen l)\<rparr>
                         else acc1)
                    | None \<Rightarrow> acc1)
                 else acc1)))"

definition calculateVisualLayout ::
  "(codepoint \<Rightarrow> nat) \<Rightarrow> jsstring list \<Rightarrow> nat \<times> nat \<Rightarrow> nat \<Rightarrow> VisualLayout" where
  "calculateVisualLayout stringWidth logicalLines logicalCursor viewportWidth =
     (let acc = foldl (layoutLine stringWidth viewportWidth logicalCursor)
                  \<lparr>visualLines = [], visualCursor = (0, 0),
                   logicalToVisualMap = [], visualToLogicalMap = []\<rparr>
                  (zip [0..<length logicalLines] logicalLines)
      in if length logicalLines = 0 \<or> (length logicalLines = 1 \<and> logicalLines ! 0 = []) then
           (let acc1 =
                  (if length (visualLines acc) = 0 then
                     acc\<lparr>visualLines := visualLines acc @ [[]],
                         logicalToVisualMap :=
                           pushAt (if logicalToVisualMap acc = [] then [[]]
                                   else logicalToVisualMap acc) 0 (0, 0),
                         visualToLogicalMap := visualToLogicalMap acc @ [(0, 0)]\<rparr>
                   else acc)
            in acc1\<lparr>visualCursor := (0, 0)\<rparr>)
         else if int (fst logicalCursor) = int (length logicalLines) - 1 \<and>
                 snd logicalCursor = cpLen (logicalLines ! (length logicalLines - 1)) \<and>
                 length (visualLines acc) > 0
         then acc\<lparr>visualCursor :=
                    (length (visualLines acc) - 1,
                     cpLen (visualLines acc ! (length (visualLines acc) - 1)))\<rparr>
         else acc)"

section \<open>Controller\<close>

text \<open>
  The hook's state is the reducer's state; a command of the controller reads the state of
  the current render and dispatches actions, which the reducer applies in order. A command
  is modelled by the state after its dispatches. The host supplies \<open>isValidPath\<close>;
  \<open>unescapePath\<close> comes from the core package, \<open>stripAnsi\<close> and \<open>stringWidth\<close>
  from external packages: all four are fields of the environment.
\<close>

record Env =
  stripAnsi :: "jsstring \<Rightarrow> jsstring"
  stringWidth :: "codepoint \<Rightarrow> nat"
  isValidPath :: "jsstring \<Rightarrow> bool"
  unescapePath :: "jsstring \<Rightarrow> jsstring"
  viewportWidth :: nat

text \<open>\<open>calculateInitialCursorPosition\<close> and the initial state of the hook.\<close>

function initialCursorLoop :: "jsstring list \<Rightarrow> nat \<Rightarrow> nat \<Rightarrow> nat \<times> nat" where
  "initialCursorLoop initialLines remainingChars row =
     (if row < length initialLines then
        (let lineLength = cpLen (initialLines ! row);
             totalCharsInLineAndNewline =
               lineLength + (if row < length initialLines - 1 then 1 else 0)
         in if remainingChars \<le> lineLength then (row, remainingChars)
            else initialCursorLoop initialLines (remainingChars - totalCharsInLineAndNewline)
                   (row + 1))
      else if length initialLines > 0
      then (length initialLines - 1, cpLen (initialLines ! (length initialLines - 1)))
      else (0, 0))"
  by pat_completeness auto
termination
  by (relation "measure (\<lambda>(ls, remaining, row). length ls - row)") auto

declare initialCursorLoop.simps [simp del]

definition calculateInitialCursorPosition :: "jsstring list \<Rightarrow> nat \<Rightarrow> nat \<times> nat" where
  "calculateInitialCursorPosition initialLines offset = initialCursorLoop initialLines offset 0"

definition initialState :: "jsstring \<Rightarrow> nat \<Rightarrow> TextBufferState" where
  "initialState initialText initialCursorOffset =
     (let ls = splitNL initialText;
          ls' = (if length ls = 0 then [[]] else ls);
          p = calculateInitialCursorPosition ls' initialCursorOffset
      in \<lparr>lines = ls', cursorRow = fst p, cursorCol = snd p, preferredCol = None,
          undoStack = [], redoStack = [], clipboard = None, selectionAnchor = None\<rparr>)"

definition text_of :: "TextBufferState \<Rightarrow> jsstring" where
  "text_of state = joinNL (lines state)"

definition visualLayout_of :: "Env \<Rightarrow> TextBufferState \<Rightarrow> VisualLayout" where
  "visualLayout_of env state =
     calculateVisualLayout (stringWidth env) (lines state) (cursorRow state, cursorCol state)
       (viewportWidth env)"

definition dispatch :: "Env \<Rightarrow> TextBufferState \<Rightarrow> TextBufferAction \<Rightarrow> TextBufferState" where
  "dispatch env state action = textBufferReducer (stripAnsi env) state action"

definition applyOperations :: "Env \<Rightarrow> TextBufferState \<Rightarrow> UpdateOperation list \<Rightarrow> TextBufferState" where
  "applyOperations env state ops = dispatch env state (APPLY_OPERATIONS ops)"

text \<open>\<open>String.prototype.trim\<close>.\<close>

definition trim :: "jsstring \<Rightarrow> jsstring" where
  "trim s = rev (dropWhile isSpaceCp (rev (dropWhile isSpaceCp s)))"

definition insert_cmd :: "Env \<Rightarrow> TextBufferState \<Rightarrow> jsstring \<Rightarrow> TextBufferState" where
  "insert_cmd env state ch =
     (if list_ex (\<lambda>c. c = 10 \<or> c = 13) ch then applyOperations env state [OpInsert ch]
      else
        (let ch1 = stripUnsafeCharacters (stripAnsi env) ch;
             minLengthToInferAsDragDrop = 3;
             ch2 =
               (if jsLength ch1 \<ge> minLengthToInferAsDragDrop then
                  (let potentialPath =
                         (if jsLength ch1 > 2 \<and> hd ch1 = 39 \<and> last ch1 = 39
                          then butlast (tl ch1) else ch1);
                       potentialPath' = trim potentialPath
                   in if isValidPath env (unescapePath env potentialPath')
                      then 64 # potentialPath' else ch1)
                else ch1)
         in applyOperations env state [OpInsert ch2]))"

definition newline_cmd :: "Env \<Rightarrow> TextBufferState \<Rightarrow> TextBufferState" where
  "newline_cmd env state = applyOperations env state [OpInsert [10]]"

definition backspace_cmd :: "Env \<Rightarrow> TextBufferState \<Rightarrow> TextBufferState" where
  "backspace_cmd env state =
     (if cursorCol state = 0 \<and> cursorRow state = 0 then state
      else applyOperations env state [OpBackspace])"

definition del_cmd :: "Env \<Rightarrow> TextBufferState \<Rightarrow> TextBufferState" where
  "del_cmd env state = dispatch env state DELETE"

definition move_cmd :: "Env \<Rightarrow> TextBufferState \<Rightarrow> Direction \<Rightarrow> TextBufferState" where
  "move_cmd env state dir = dispatch env state (MOVE dir (visualLayout_of env state))"

definition undo_cmd :: "Env \<Rightarrow> TextBufferState \<Rightarrow> TextBufferState" where
  "undo_cmd env state = dispatch env state UNDO"

record Key =
  name :: string
  ctrl :: bool
  meta :: bool
  shift :: bool
  paste :: bool
  sequence :: jsstring

text \<open>
  \<open>handleInput\<close>. The result is the returned boolean and the state after the
  dispatch. \<open>text\<close>, \<open>cursorRow\<close> and \<open>cursorCol\<close> are constants of the render
  in which the callback was created: the comparisons after the dispatch read the same
  values as \<open>beforeText\<close> and \<open>beforeCursor\<close>.
\<close>

definition handleInput :: "Env \<Rightarrow> TextBufferState \<Rightarrow> Key \<Rightarrow> bool \<times> TextBufferState" where
  "handleInput env state key =
     (let input = sequence key;
          text = text_of state;
          beforeText = text;
          beforeCursor = (cursorRow state, cursorCol state)
      in if name key = ''escape'' then (False, state)
         else
           (let state' =
                  (if name key = ''return'' \<or> input = [13] \<or> input = [10] then newline_cmd env state
                   else if name key = ''left'' \<and> \<not> meta key \<and> \<not> ctrl key
                   then move_cmd env state DirLeft
                   else if name key = ''right'' \<and> \<not> meta key \<and> \<not> ctrl key
                   then move_cmd env state DirRight
                   else if name key = ''up'' then move_cmd env state DirUp
                   else if name key = ''down'' then move_cmd env state DirDown
                   else if name key = ''home'' then move_cmd env state DirHome
                   else if name key = ''end'' then move_cmd env state DirEnd
                   else if name key = ''backspace'' \<or> input = [127] then backspace_cmd env state
                   else if name key = ''delete'' \<or> (ctrl key \<and> name key = ''d'')
                   then del_cmd env state
                   else if input \<noteq> [] \<and> \<not> ctrl key \<and> \<not> meta key
                   then insert_cmd env state input
                   else state);
                textChanged = (text \<noteq> beforeText);
                cursorChanged = (cursorRow state \<noteq> fst beforeCursor \<or>
                                 cursorCol state \<noteq> snd beforeCursor)
            in (textChanged \<or> cursorChanged, state')))"

section \<open>Properties of states and actions, and concrete inputs\<close>

text \<open>The cursor is a valid position and the buffer is not empty.\<close>

definition cursorValid :: "TextBufferState \<Rightarrow> bool" where
  "cursorValid state \<longleftrightarrow>
     lines state \<noteq> [] \<and> cursorRow state < length (lines state) \<and>
     cursorCol state \<le> cpLen (lineAt (lines state) (cursorRow state))"

text \<open>The actions that the specification calls mutating.\<close>

fun isMutating :: "TextBufferAction \<Rightarrow> bool" where
  "isMutating (SET_TEXT payload pushToUndo) = True"
| "isMutating (APPLY_OPERATIONS payload) = True"
| "isMutating DELETE = True"
| "isMutating DELETE_WORD_LEFT = True"
| "isMutating DELETE_WORD_RIGHT = True"
| "isMutating KILL_LINE_RIGHT = True"
| "isMutating KILL_LINE_LEFT = True"
| "isMutating PASTE = True"
| "isMutating (REPLACE_RANGE startRow startCol endRow endCol text) = True"
| "isMutating a = False"

text \<open>The snapshot that \<open>pushUndo\<close> takes of a state.\<close>

definition snapshotOf :: "TextBufferState \<Rightarrow> UndoHistoryEntry" where
  "snapshotOf state =
     \<lparr>h_lines = lines state, h_cursorRow = cursorRow state, h_cursorCol = cursorCol state\<rparr>"

text \<open>
  An environment for concrete runs: no escape sequence to strip, every code point one
  cell wide, no string a valid path, a viewport of 80 cells.
\<close>

definition plainEnv :: Env where
  "plainEnv = \<lparr>stripAnsi = (\<lambda>s. s), stringWidth = (\<lambda>c. 1), isValidPath = (\<lambda>p. False),
               unescapePath = (\<lambda>p. p), viewportWidth = 80\<rparr>"

text \<open>The buffer \<open>["ab", "cd"]\<close> with the cursor at \<open>(0, 1)\<close>.\<close>

definition twoLineState :: TextBufferState where
  "twoLineState = initialState [97, 98, 10, 99, 100] 1"

text \<open>The key event of the printable key \<open>a\<close>.\<close>

definition keyA :: Key where
  "keyA = \<lparr>name = ''a'', ctrl = False, meta = False, shift = False, paste = False,
           sequence = [97]\<rparr>"

text \<open>
  The state after typing \<open>a\<close> into the empty buffer and undoing it: the empty buffer
  with the cursor at \<open>(0, 0)\<close> and one entry on the redo stack.
\<close>

definition undoneState :: TextBufferState where
  "undoneState = undo_cmd plainEnv (insert_cmd plainEnv (initialState [] 0) [97])"

text \<open>
  The state after moving down from \<open>(0, 1)\<close> in \<open>["ab", "cd"]\<close>: the cursor is at
  \<open>(1, 1)\<close> and the preferred column is 1.
\<close>

definition movedDownState :: TextBufferState where
  "movedDownState = move_cmd plainEnv twoLineState DirDown"

text \<open>
  A visual line fits a viewport when its visual width is at most the viewport width, or
  when it is a single code point that is wider than the viewport.
\<close>

definition fits :: "(codepoint \<Rightarrow> nat) \<Rightarrow> nat \<Rightarrow> jsstring \<Rightarrow> bool" where
  "fits sw vw l \<longleftrightarrow> visualWidth sw l \<le> vw \<or> (\<exists>c. l = [c] \<and> sw c > vw)"

text \<open>
  The invariant of the inner loop of the layouter: the chunk is the \<open>n\<close> code points
  from the chunk start, its width is the running width, within the viewport, and the
  word break recorded lies inside the chunk.
\<close>

definition chunkInv ::
  "(codepoint \<Rightarrow> nat) \<Rightarrow> nat \<Rightarrow> codepoint list \<Rightarrow> nat \<Rightarrow> nat \<Rightarrow> jsstring \<Rightarrow> nat \<Rightarrow> nat
     \<Rightarrow> nat \<Rightarrow> bool" where
  "chunkInv sw vw cps pos i chunk w n nAtWB \<longleftrightarrow>
     i = pos + n \<and> chunk = take n (drop pos cps) \<and> w = visualWidth sw chunk \<and> w \<le> vw \<and>
     nAtWB \<le> n"

text \<open>
  A width function for concrete runs: two cells from code point 4352 (the start of the
  Hangul Jamo block) on, one cell below.
\<close>

definition cellWidth :: "codepoint \<Rightarrow> nat" where
  "cellWidth c = (if c \<ge> 4352 then 2 else 1)"

section \<open>History: snapshots and undo\<close>

lemma pushUndo_fields [simp]:
  "lines (pushUndo s) = lines s" "cursorRow (pushUndo s) = cursorRow s"
  "cursorCol (pushUndo s) = cursorCol s" "preferredCol (pushUndo s) = preferredCol s"
  "clipboard (pushUndo s) = clipboard s" "selectionAnchor (pushUndo s) = selectionAnchor s"
  "redoStack (pushUndo s) = []"
  by (simp_all add: pushUndo_def Let_def)

lemma pushUndo_undoStack:
  "undoStack (pushUndo s) =
     (if length (undoStack s) \<ge> historyLimit then tl (undoStack s @ [snapshotOf s])
      else undoStack s @ [snapshotOf s])"
  by (auto simp add: pushUndo_def Let_def snapshotOf_def)

lemma pushUndo_last:
  "undoStack (pushUndo s) \<noteq> [] \<and> last (undoStack (pushUndo s)) = snapshotOf s"
proof (cases "undoStack s")
  case Nil
  then show ?thesis by (simp add: pushUndo_undoStack historyLimit_def)
next
  case (Cons x xs)
  then show ?thesis by (simp add: pushUndo_undoStack)
qed

lemma at_last: "xs \<noteq> [] \<Longrightarrow> at xs (length xs - 1) = Some (last xs)"
  by (simp add: at_def last_conv_nth)

lemma undo_after_push:
  assumes "undoStack s' = undoStack (pushUndo s)"
  shows "lines (undo_action s') = lines s \<and> cursorRow (undo_action s') = cursorRow s \<and>
         cursorCol (undo_action s') = cursorCol s"
proof -
  from pushUndo_last [of s] assms
  have ne: "undoStack s' \<noteq> []" and l: "last (undoStack s') = snapshotOf s" by simp_all
  from at_last [OF ne] l show ?thesis
    by (simp add: undo_action_def Let_def snapshotOf_def)
qed

lemma applyOperations_push:
  "applyOperations_action sa s ops = s \<or>
   undoStack (applyOperations_action sa s ops) = undoStack (pushUndo s)"
  by (simp add: applyOperations_action_def Let_def)

lemma setText_push:
  "undoStack (setText_action s t True) = undoStack (pushUndo s)"
  by (simp add: setText_action_def Let_def)

lemma delete_push:
  "delete_action s = s \<or> undoStack (delete_action s) = undoStack (pushUndo s)"
  by (simp add: delete_action_def Let_def)

lemma deleteWordLeft_push:
  "deleteWordLeft_action s = s \<or> undoStack (deleteWordLeft_action s) = undoStack (pushUndo s)"
  by (simp add: deleteWordLeft_action_def Let_def)

lemma deleteWordRight_push:
  "deleteWordRight_action s = s \<or> undoStack (deleteWordRight_action s) = undoStack (pushUndo s)"
  by (simp add: deleteWordRight_action_def Let_def)

lemma killLineRight_push:
  "killLineRight_action s = s \<or> undoStack (killLineRight_action s) = undoStack (pushUndo s)"
  by (simp add: killLineRight_action_def Let_def)

lemma killLineLeft_push:
  "killLineLeft_action s = s \<or> undoStack (killLineLeft_action s) = undoStack (pushUndo s)"
  by (simp add: killLineLeft_action_def Let_def)

lemma paste_push:
  "paste_action sa s = s \<or> undoStack (paste_action sa s) = undoStack (pushUndo s)"
  by (simp add: paste_action_def Let_def split: option.splits)

lemma replaceRange_push:
  "replaceRange_action s sr sc er ec t = s \<or>
   undoStack (replaceRange_action s sr sc er ec t) = undoStack (pushUndo s)"
  by (simp add: replaceRange_action_def Let_def)

lemma mutating_push:
  assumes "isMutating a" and "\<forall>t. a \<noteq> SET_TEXT t False"
  shows "textBufferReducer sa s a = s \<or>
         undoStack (textBufferReducer sa s a) = undoStack (pushUndo s)"
proof (cases a)
  case (SET_TEXT t b)
  with assms(2) have "b = True" by auto
  with SET_TEXT show ?thesis by (simp add: setText_push)
next
  case (APPLY_OPERATIONS ops) then show ?thesis using applyOperations_push by simp
next
  case DELETE then show ?thesis using delete_push by simp
next
  case DELETE_WORD_LEFT then show ?thesis using deleteWordLeft_push by simp
next
  case DELETE_WORD_RIGHT then show ?thesis using deleteWordRight_push by simp
next
  case KILL_LINE_RIGHT then show ?thesis using killLineRight_push by simp
next
  case KILL_LINE_LEFT then show ?thesis using killLineLeft_push by simp
next
  case PASTE then show ?thesis using paste_push by simp
next
  case (REPLACE_RANGE sr sc er ec t) then show ?thesis using replaceRange_push by simp
qed (use assms(1) in \<open>simp_all only: isMutating.simps\<close>)

text \<open>
  Claim C2, as amended. \<open>SET_TEXT\<close> carries the flag \<open>pushToUndo\<close>; with the flag
  false it takes no snapshot. For every state \<open>s\<close> and every mutating action \<open>a\<close>
  other than \<open>SET_TEXT\<close> with \<open>pushToUndo = false\<close>, if \<open>a\<close> changes the state
  then \<open>UNDO\<close> applied to the result yields the lines, the cursor row and the cursor column
  of \<open>s\<close>.
\<close>

theorem undo_restores_after_mutating_action:
  assumes "isMutating a" and "\<forall>t. a \<noteq> SET_TEXT t False"
    and "textBufferReducer sa s a \<noteq> s"
  shows "lines (textBufferReducer sa (textBufferReducer sa s a) UNDO) = lines s \<and>
         cursorRow (textBufferReducer sa (textBufferReducer sa s a) UNDO) = cursorRow s \<and>
         cursorCol (textBufferReducer sa (textBufferReducer sa s a) UNDO) = cursorCol s"
proof -
  from mutating_push [OF assms(1,2), of sa s] assms(3)
  have "undoStack (textBufferReducer sa s a) = undoStack (pushUndo s)" by simp
  from undo_after_push [OF this] show ?thesis by simp
qed

text \<open>
  Claim C2, witness: \<open>DELETE\<close> on the buffer \<open>["ab", "cd"]\<close> with the cursor at
  \<open>(0, 1)\<close> changes the state, and \<open>UNDO\<close> brings lines and cursor back.
\<close>

theorem undo_restores_after_mutating_action_witness:
  "isMutating DELETE \<and> (\<forall>t. DELETE \<noteq> SET_TEXT t False) \<and>
   textBufferReducer (stripAnsi plainEnv) twoLineState DELETE \<noteq> twoLineState \<and>
   lines (textBufferReducer (stripAnsi plainEnv)
            (textBufferReducer (stripAnsi plainEnv) twoLineState DELETE) UNDO)
     = lines twoLineState \<and>
   cursorRow (textBufferReducer (stripAnsi plainEnv)
            (textBufferReducer (stripAnsi plainEnv) twoLineState DELETE) UNDO)
     = cursorRow twoLineState \<and>
   cursorCol (textBufferReducer (stripAnsi plainEnv)
            (textBufferReducer (stripAnsi plainEnv) twoLineState DELETE) UNDO)
     = cursorCol twoLineState"
proof -
  have m: "isMutating DELETE" by simp
  have n: "\<forall>t. DELETE \<noteq> SET_TEXT t False" by simp
  have c: "textBufferReducer (stripAnsi plainEnv) twoLineState DELETE \<noteq> twoLineState"
    by code_simp
  from undo_restores_after_mutating_action [OF m n c] m n c show ?thesis by blast
qed

text \<open>
  Claim C2, counterexample to the claim as stated: on the empty buffer,
  \<open>SET_TEXT("a", pushToUndo = false)\<close> is a mutating action that changes the state, and
  \<open>UNDO\<close> after it does not bring the lines back (the undo stack is empty).
\<close>

theorem undo_after_setText_without_snapshot_counterexample:
  "isMutating (SET_TEXT [97] False) \<and>
   textBufferReducer (stripAnsi plainEnv) (initialState [] 0) (SET_TEXT [97] False)
     \<noteq> initialState [] 0 \<and>
   lines (textBufferReducer (stripAnsi plainEnv)
            (textBufferReducer (stripAnsi plainEnv) (initialState [] 0) (SET_TEXT [97] False))
            UNDO)
     \<noteq> lines (initialState [] 0)"
  by code_simp

text \<open>
  Claim C10. \<open>UNDO\<close> and \<open>REDO\<close> leave the clipboard and the selection anchor of the
  state unchanged: a history entry holds lines, cursor row and cursor column only, and
  these are the only fields that the restored entry overwrites.
\<close>

theorem undo_redo_keep_clipboard_and_anchor:
  "clipboard (textBufferReducer sa s UNDO) = clipboard s \<and>
   selectionAnchor (textBufferReducer sa s UNDO) = selectionAnchor s \<and>
   clipboard (textBufferReducer sa s REDO) = clipboard s \<and>
   selectionAnchor (textBufferReducer sa s REDO) = selectionAnchor s"
  by (simp add: undo_action_def redo_action_def Let_def split: option.splits)

section \<open>Evaluation on concrete inputs\<close>

text \<open>
  The definitions that a concrete run unfolds. The equations of the loops are not
  simplification rules; with concrete arguments every loop condition evaluates.
\<close>

lemmas ev =
  insert_cmd_def applyOperations_def dispatch_def applyOperations_action_def applyOp_def
  insertStr_def pushUndo_def stripUnsafeCharacters_def Let_def plainEnv_def jsLength_def
  toCodePoints_def cpLen_def cpSlice_def cpSliceFrom_def replaceCR_def lineAt_def at_def
  setAt_def splice_def historyLimit_def undo_cmd_def undo_action_def
  initialState_def calculateInitialCursorPosition_def initialCursorLoop.simps
  twoLineState_def undoneState_def movedDownState_def keyA_def
  move_cmd_def move_action_def visualLayout_of_def calculateVisualLayout_def layoutLine_def
  wrapLoop.simps nextChunk_def chunkLoop.simps advancePos_def mapCursor_def pushAt_def clamp_def
  killLineRight_action_def currentLine_def currentLineLen_def
  handleInput_def newline_cmd_def backspace_cmd_def del_cmd_def text_of_def
  replaceRange_action_def replaceRangeInvalid_def clampInt_def cursorValid_def
  setText_action_def delete_action_def snapshotOf_def

lemma undoneState_eval:
  "undoneState =
     \<lparr>lines = [[]], cursorRow = 0, cursorCol = 0, preferredCol = None, undoStack = [],
      redoStack = [\<lparr>h_lines = [[97]], h_cursorRow = 0, h_cursorCol = 1\<rparr>],
      clipboard = None, selectionAnchor = None\<rparr>"
  by (simp add: ev)

lemma movedDownState_eval:
  "movedDownState =
     \<lparr>lines = [[97, 98], [99, 100]], cursorRow = 1, cursorCol = 1, preferredCol = Some 1,
      undoStack = [], redoStack = [], clipboard = None, selectionAnchor = None\<rparr>"
  by (simp add: ev upt_rec)

lemma twoLineState_eval:
  "twoLineState =
     \<lparr>lines = [[97, 98], [99, 100]], cursorRow = 0, cursorCol = 1, preferredCol = None,
      undoStack = [], redoStack = [], clipboard = None, selectionAnchor = None\<rparr>"
  by (simp add: ev)

section \<open>The edit engine\<close>

text \<open>
  Claim C1, at the failing input: \<open>REPLACE_RANGE(0, 0, 0, 0, t)\<close> on the empty buffer,
  with \<open>t\<close> the text \<open>a\<close>, newline, \<open>b\<close>. The range lies in one row, so the reducer stores the replacement, newline
  included, as the one line of the buffer, and puts the cursor in row
  \<open>startRow + replacementParts.length - 1 = 1\<close>: the buffer has one line and the cursor
  is not a valid position. (The branch for a range over several rows splits the
  replacement into lines.)
\<close>

theorem replaceRange_single_row_multiline_breaks_cursor:
  "cursorValid (initialState [] 0) \<and>
   lines (textBufferReducer (stripAnsi plainEnv) (initialState [] 0)
            (REPLACE_RANGE 0 0 0 0 [97, 10, 98])) = [[97, 10, 98]] \<and>
   cursorRow (textBufferReducer (stripAnsi plainEnv) (initialState [] 0)
            (REPLACE_RANGE 0 0 0 0 [97, 10, 98])) = 1 \<and>
   \<not> cursorValid (textBufferReducer (stripAnsi plainEnv) (initialState [] 0)
            (REPLACE_RANGE 0 0 0 0 [97, 10, 98]))"
  by (simp add: ev)

text \<open>
  Claim C6, as amended. With the cursor at \<open>(0, 0)\<close>, \<open>APPLY_OPERATIONS\<close> with the
  single operation backspace leaves lines, cursor, clipboard and selection anchor
  unchanged, but it is a batch like any other: it pushes a snapshot onto the undo stack
  (dropping the oldest entry beyond 100), empties the redo stack and clears the preferred
  column. The guard that makes backspace at \<open>(0, 0)\<close> a silent no-op is in the
  controller's \<open>backspace\<close> command, which dispatches nothing there.
\<close>

theorem backspace_at_origin_pushes_snapshot:
  assumes "cursorRow s = 0" and "cursorCol s = 0"
  shows "lines (textBufferReducer sa s (APPLY_OPERATIONS [OpBackspace])) = lines s \<and>
         cursorRow (textBufferReducer sa s (APPLY_OPERATIONS [OpBackspace])) = 0 \<and>
         cursorCol (textBufferReducer sa s (APPLY_OPERATIONS [OpBackspace])) = 0 \<and>
         undoStack (textBufferReducer sa s (APPLY_OPERATIONS [OpBackspace])) =
           (if length (undoStack s) \<ge> 100 then tl (undoStack s @ [snapshotOf s])
            else undoStack s @ [snapshotOf s]) \<and>
         redoStack (textBufferReducer sa s (APPLY_OPERATIONS [OpBackspace])) = [] \<and>
         preferredCol (textBufferReducer sa s (APPLY_OPERATIONS [OpBackspace])) = None \<and>
         clipboard (textBufferReducer sa s (APPLY_OPERATIONS [OpBackspace])) = clipboard s \<and>
         selectionAnchor (textBufferReducer sa s (APPLY_OPERATIONS [OpBackspace]))
           = selectionAnchor s \<and>
         backspace_cmd env s = s"
  using assms
  by (simp add: applyOperations_action_def applyOp_def Let_def pushUndo_undoStack
      historyLimit_def backspace_cmd_def)

text \<open>
  Claim C6, witness: the empty buffer with the cursor at \<open>(0, 0)\<close>, an empty undo
  stack and one entry on the redo stack.
\<close>

theorem backspace_at_origin_pushes_snapshot_witness:
  "cursorRow undoneState = 0 \<and> cursorCol undoneState = 0 \<and>
   lines (textBufferReducer (stripAnsi plainEnv) undoneState (APPLY_OPERATIONS [OpBackspace]))
     = [[]] \<and>
   undoStack (textBufferReducer (stripAnsi plainEnv) undoneState (APPLY_OPERATIONS [OpBackspace]))
     = [\<lparr>h_lines = [[]], h_cursorRow = 0, h_cursorCol = 0\<rparr>] \<and>
   redoStack (textBufferReducer (stripAnsi plainEnv) undoneState (APPLY_OPERATIONS [OpBackspace]))
     = [] \<and>
   backspace_cmd plainEnv undoneState = undoneState"
proof -
  have r: "cursorRow undoneState = 0" by (simp add: undoneState_eval)
  have c: "cursorCol undoneState = 0" by (simp add: undoneState_eval)
  have l: "lines undoneState = [[]]" by (simp add: undoneState_eval)
  have u: "undoStack undoneState = []" by (simp add: undoneState_eval)
  from backspace_at_origin_pushes_snapshot [OF r c, of "stripAnsi plainEnv" plainEnv] r c l u
  show ?thesis by (simp add: snapshotOf_def)
qed

text \<open>
  Claim C6, counterexample to the claim as stated: in that state the action changes the
  undo stack and the redo stack.
\<close>

theorem backspace_at_origin_counterexample:
  "cursorRow undoneState = 0 \<and> cursorCol undoneState = 0 \<and>
   undoStack (textBufferReducer (stripAnsi plainEnv) undoneState (APPLY_OPERATIONS [OpBackspace]))
     \<noteq> undoStack undoneState \<and>
   redoStack (textBufferReducer (stripAnsi plainEnv) undoneState (APPLY_OPERATIONS [OpBackspace]))
     \<noteq> redoStack undoneState"
  by (simp add: undoneState_eval ev)

text \<open>
  Claim C7, what the code does: with the cursor strictly before the end of its line,
  \<open>KILL_LINE_RIGHT\<close> cuts the line at the cursor and returns the preferred column of the
  state as it was. It is not cleared, unlike in the other branch of the same case and in
  every other edit.
\<close>

theorem killLineRight_within_line_keeps_preferredCol:
  assumes "cursorCol s < cpLen (lineAt (lines s) (cursorRow s))"
  shows "preferredCol (textBufferReducer sa s KILL_LINE_RIGHT) = preferredCol s \<and>
         lines (textBufferReducer sa s KILL_LINE_RIGHT) =
           setAt (lines s) (cursorRow s)
             (cpSlice (lineAt (lines s) (cursorRow s)) 0 (cursorCol s))"
  using assms
  by (simp add: killLineRight_action_def Let_def currentLineLen_def currentLine_def)

text \<open>
  Claim C7, at the failing input: after moving down from \<open>(0, 1)\<close> in
  \<open>["ab", "cd"]\<close> the preferred column is 1, and it still is after
  \<open>KILL_LINE_RIGHT\<close> has cut the second line to \<open>"c"\<close>.
\<close>

theorem killLineRight_within_line_keeps_preferredCol_witness:
  "cursorCol movedDownState < cpLen (lineAt (lines movedDownState) (cursorRow movedDownState)) \<and>
   preferredCol (textBufferReducer (stripAnsi plainEnv) movedDownState KILL_LINE_RIGHT) = Some 1 \<and>
   lines (textBufferReducer (stripAnsi plainEnv) movedDownState KILL_LINE_RIGHT)
     = [[97, 98], [99]]"
proof -
  have h: "cursorCol movedDownState
             < cpLen (lineAt (lines movedDownState) (cursorRow movedDownState))"
    by (simp add: movedDownState_eval ev)
  have p: "preferredCol movedDownState = Some 1" by (simp add: movedDownState_eval)
  have l: "setAt (lines movedDownState) (cursorRow movedDownState)
             (cpSlice (lineAt (lines movedDownState) (cursorRow movedDownState)) 0
                (cursorCol movedDownState)) = [[97, 98], [99]]"
    by (simp add: movedDownState_eval ev)
  from killLineRight_within_line_keeps_preferredCol [OF h, of "stripAnsi plainEnv"] h p l
  show ?thesis by simp
qed

text \<open>
  Claim C3, as amended. \<open>REPLACE_RANGE\<close> returns the state unchanged when the start
  lies after the end, when \<open>startRow\<close> or \<open>startCol\<close> is negative, when
  \<open>endRow\<close> is out of bounds, or when \<open>endCol\<close> exceeds the code-point length of
  its line. It does not compare \<open>startCol\<close> with the length of its line, nor
  \<open>endCol\<close> with zero: when the range spans several rows, a \<open>startCol\<close> beyond the
  end of its line is clamped to that end and a negative \<open>endCol\<close> is clamped to zero,
  and the replacement is performed, with its snapshot.
\<close>

theorem replaceRange_validation:
  "((startRow > endRow \<or> (startRow = endRow \<and> startCol > endCol) \<or> startRow < 0 \<or>
     startCol < 0 \<or> endRow \<ge> int (length (lines s)) \<or>
     endCol > int (cpLen (lineAt (lines s) (nat endRow))))
    \<longrightarrow> textBufferReducer sa s (REPLACE_RANGE startRow startCol endRow endCol t) = s) \<and>
   (0 \<le> startRow \<and> startRow < endRow \<and> endRow < int (length (lines s)) \<and>
    endCol \<le> int (cpLen (lineAt (lines s) (nat endRow))) \<and>
    startCol > int (cpLen (lineAt (lines s) (nat startRow)))
    \<longrightarrow> textBufferReducer sa s (REPLACE_RANGE startRow startCol endRow endCol t) =
          textBufferReducer sa s
            (REPLACE_RANGE startRow (int (cpLen (lineAt (lines s) (nat startRow)))) endRow endCol t) \<and>
        undoStack (textBufferReducer sa s (REPLACE_RANGE startRow startCol endRow endCol t)) =
          undoStack (pushUndo s)) \<and>
   (0 \<le> startRow \<and> startRow < endRow \<and> endRow < int (length (lines s)) \<and>
    0 \<le> startCol \<and> endCol < 0
    \<longrightarrow> textBufferReducer sa s (REPLACE_RANGE startRow startCol endRow endCol t) =
          textBufferReducer sa s (REPLACE_RANGE startRow startCol endRow 0 t) \<and>
        undoStack (textBufferReducer sa s (REPLACE_RANGE startRow startCol endRow endCol t)) =
          undoStack (pushUndo s))"
proof (intro conjI impI)
  assume "startRow > endRow \<or> (startRow = endRow \<and> startCol > endCol) \<or> startRow < 0 \<or>
     startCol < 0 \<or> endRow \<ge> int (length (lines s)) \<or>
     endCol > int (cpLen (lineAt (lines s) (nat endRow)))"
  then have "replaceRangeInvalid s startRow startCol endRow endCol"
    by (auto simp add: replaceRangeInvalid_def currentLineLen_def currentLine_def)
  then show "textBufferReducer sa s (REPLACE_RANGE startRow startCol endRow endCol t) = s"
    by (simp add: replaceRange_action_def)
next
  assume h: "0 \<le> startRow \<and> startRow < endRow \<and> endRow < int (length (lines s)) \<and>
    endCol \<le> int (cpLen (lineAt (lines s) (nat endRow))) \<and>
    startCol > int (cpLen (lineAt (lines s) (nat startRow)))"
  then have v1: "\<not> replaceRangeInvalid s startRow startCol endRow endCol"
    by (auto simp add: replaceRangeInvalid_def currentLineLen_def currentLine_def)
  from h have v2: "\<not> replaceRangeInvalid s startRow
                      (int (cpLen (lineAt (lines s) (nat startRow)))) endRow endCol"
    by (auto simp add: replaceRangeInvalid_def currentLineLen_def currentLine_def)
  from h have c: "clampInt startCol 0 (int (currentLineLen s (nat startRow)))
                  = int (currentLineLen s (nat startRow))"
    by (simp add: clampInt_def currentLineLen_def currentLine_def)
  have c2: "clampInt (int (currentLineLen s (nat startRow))) 0 (int (currentLineLen s (nat startRow)))
                  = int (currentLineLen s (nat startRow))"
    by (simp add: clampInt_def)
  have e: "int (cpLen (lineAt (lines s) (nat startRow))) = int (currentLineLen s (nat startRow))"
    by (simp add: currentLineLen_def currentLine_def)
  show "textBufferReducer sa s (REPLACE_RANGE startRow startCol endRow endCol t) =
          textBufferReducer sa s
            (REPLACE_RANGE startRow (int (cpLen (lineAt (lines s) (nat startRow)))) endRow endCol t)"
    using v1 v2 unfolding e by (simp add: replaceRange_action_def c c2 del: of_nat_eq_iff)
  show "undoStack (textBufferReducer sa s (REPLACE_RANGE startRow startCol endRow endCol t)) =
          undoStack (pushUndo s)"
    using v1 by (simp add: replaceRange_action_def Let_def)
next
  assume h: "0 \<le> startRow \<and> startRow < endRow \<and> endRow < int (length (lines s)) \<and>
    0 \<le> startCol \<and> endCol < 0"
  then have v1: "\<not> replaceRangeInvalid s startRow startCol endRow endCol"
    by (auto simp add: replaceRangeInvalid_def)
  from h have v2: "\<not> replaceRangeInvalid s startRow startCol endRow 0"
    by (auto simp add: replaceRangeInvalid_def)
  from h have c: "clampInt endCol 0 (int (currentLineLen s (nat endRow))) = 0"
    by (simp add: clampInt_def)
  have c2: "clampInt 0 0 (int (currentLineLen s (nat endRow))) = 0"
    by (simp add: clampInt_def)
  show "textBufferReducer sa s (REPLACE_RANGE startRow startCol endRow endCol t) =
          textBufferReducer sa s (REPLACE_RANGE startRow startCol endRow 0 t)"
    using v1 v2 by (simp add: replaceRange_action_def c c2)
  show "undoStack (textBufferReducer sa s (REPLACE_RANGE startRow startCol endRow endCol t)) =
          undoStack (pushUndo s)"
    using v1 by (simp add: replaceRange_action_def Let_def)
qed

text \<open>
  Claim C3, witness: on \<open>["ab", "cd"]\<close>, the range from row 1 to row 0 is rejected,
  and the range from \<open>(0, 5)\<close> to \<open>(1, 1)\<close> behaves as the range from
  \<open>(0, 2)\<close>: the result is \<open>["abXd"]\<close>.
\<close>

theorem replaceRange_validation_witness:
  "textBufferReducer (stripAnsi plainEnv) twoLineState (REPLACE_RANGE 1 0 0 0 [88]) = twoLineState \<and>
   textBufferReducer (stripAnsi plainEnv) twoLineState (REPLACE_RANGE 0 5 1 1 [88]) =
     textBufferReducer (stripAnsi plainEnv) twoLineState (REPLACE_RANGE 0 2 1 1 [88]) \<and>
   lines (textBufferReducer (stripAnsi plainEnv) twoLineState (REPLACE_RANGE 0 2 1 1 [88]))
     = [[97, 98, 88, 100]]"
proof -
  have l: "lines twoLineState = [[97, 98], [99, 100]]" by (simp add: twoLineState_eval)
  have a: "textBufferReducer (stripAnsi plainEnv) twoLineState (REPLACE_RANGE 1 0 0 0 [88])
             = twoLineState"
    using replaceRange_validation [where startRow = 1 and startCol = 0 and endRow = 0 and endCol = 0
        and s = twoLineState and sa = "stripAnsi plainEnv" and t = "[88]"]
    by simp
  have b: "textBufferReducer (stripAnsi plainEnv) twoLineState (REPLACE_RANGE 0 5 1 1 [88]) =
     textBufferReducer (stripAnsi plainEnv) twoLineState (REPLACE_RANGE 0 2 1 1 [88])"
    using replaceRange_validation [where startRow = 0 and startCol = 5 and endRow = 1 and endCol = 1
        and s = twoLineState and sa = "stripAnsi plainEnv" and t = "[88]"] l
    by (simp add: lineAt_def at_def cpLen_def toCodePoints_def)
  have c: "lines (textBufferReducer (stripAnsi plainEnv) twoLineState (REPLACE_RANGE 0 2 1 1 [88]))
     = [[97, 98, 88, 100]]"
    by (simp add: twoLineState_eval ev)
  from a b c show ?thesis by simp
qed

text \<open>
  Claim C3, counterexample to the claim as stated: \<open>startCol = 5\<close> exceeds the length
  2 of line 0, everything else is in bounds, and the state changes.
\<close>

theorem replaceRange_startCol_counterexample:
  "int (cpLen (lineAt (lines twoLineState) 0)) < 5 \<and>
   textBufferReducer (stripAnsi plainEnv) twoLineState (REPLACE_RANGE 0 5 1 1 [88]) \<noteq> twoLineState \<and>
   lines (textBufferReducer (stripAnsi plainEnv) twoLineState (REPLACE_RANGE 0 5 1 1 [88]))
     = [[97, 98, 88, 100]]"
  by (simp add: twoLineState_eval ev)

section \<open>The controller\<close>

text \<open>
  Claim C5, what the code does: \<open>handleInput\<close> returns false for every state and
  every key, because it compares the text and the cursor of the render with themselves.
\<close>

theorem handleInput_always_returns_false:
  "fst (handleInput env s key) = False"
  by (simp add: handleInput_def Let_def)

text \<open>
  Claim C5, at the failing input: the printable key \<open>a\<close> on the empty buffer. The
  state after the call holds the text \<open>"a"\<close> and the cursor \<open>(0, 1)\<close>; the call
  returns false.
\<close>

theorem handleInput_always_returns_false_witness:
  "fst (handleInput plainEnv (initialState [] 0) keyA) = False \<and>
   lines (initialState [] 0) = [[]] \<and>
   lines (snd (handleInput plainEnv (initialState [] 0) keyA)) = [[97]] \<and>
   cursorCol (initialState [] 0) = 0 \<and>
   cursorCol (snd (handleInput plainEnv (initialState [] 0) keyA)) = 1"
proof -
  have b: "lines (initialState [] 0) = [[]] \<and>
   lines (snd (handleInput plainEnv (initialState [] 0) keyA)) = [[97]] \<and>
   cursorCol (initialState [] 0) = 0 \<and>
   cursorCol (snd (handleInput plainEnv (initialState [] 0) keyA)) = 1"
    by (simp add: ev)
  from handleInput_always_returns_false [of plainEnv "initialState [] 0" keyA] b
  show ?thesis by simp
qed

text \<open>
  Claim C4, as amended. The \<open>insert\<close> command strips unsafe characters, code point
  127 among them, before it dispatches: applied to \<open>a\<close>, code point 127, \<open>b\<close> on
  the empty buffer it produces the line \<open>"ab"\<close> with the cursor at \<open>(0, 2)\<close>, and
  one undo gives back the empty buffer. The expansion of code point 127 into a backspace
  acts on a payload that reaches \<open>APPLY_OPERATIONS\<close> unstripped: \<open>applyOperations\<close>
  with that one insert produces \<open>["b"]\<close> with the cursor at \<open>(0, 1)\<close>, again one
  undo step. The hypothesis is that \<open>stripAnsi\<close> leaves a string without the code
  points 27 and 155, with which every escape sequence starts, as it is.
\<close>

theorem insert_strips_delete_code_point:
  assumes "\<forall>s. 27 \<notin> set s \<and> 155 \<notin> set s \<longrightarrow> stripAnsi env s = s"
  shows "lines (insert_cmd env (initialState [] 0) [97, 127, 98]) = [[97, 98]] \<and>
         cursorRow (insert_cmd env (initialState [] 0) [97, 127, 98]) = 0 \<and>
         cursorCol (insert_cmd env (initialState [] 0) [97, 127, 98]) = 2 \<and>
         lines (undo_cmd env (insert_cmd env (initialState [] 0) [97, 127, 98])) = [[]] \<and>
         cursorRow (undo_cmd env (insert_cmd env (initialState [] 0) [97, 127, 98])) = 0 \<and>
         cursorCol (undo_cmd env (insert_cmd env (initialState [] 0) [97, 127, 98])) = 0 \<and>
         lines (applyOperations env (initialState [] 0) [OpInsert [97, 127, 98]]) = [[98]] \<and>
         cursorRow (applyOperations env (initialState [] 0) [OpInsert [97, 127, 98]]) = 0 \<and>
         cursorCol (applyOperations env (initialState [] 0) [OpInsert [97, 127, 98]]) = 1 \<and>
         lines (undo_cmd env (applyOperations env (initialState [] 0) [OpInsert [97, 127, 98]]))
           = [[]] \<and>
         cursorRow (undo_cmd env (applyOperations env (initialState [] 0) [OpInsert [97, 127, 98]]))
           = 0 \<and>
         cursorCol (undo_cmd env (applyOperations env (initialState [] 0) [OpInsert [97, 127, 98]]))
           = 0"
proof -
  from assms have s1: "stripAnsi env [97, 127, 98] = [97, 127, 98]" by simp
  from assms have s2: "stripAnsi env [97, 98] = [97, 98]" by simp
  from assms have s3: "stripAnsi env [97] = [97]" by simp
  from assms have s4: "stripAnsi env [98] = [98]" by simp
  have i: "insert_cmd env (initialState [] 0) [97, 127, 98] =
           \<lparr>lines = [[97, 98]], cursorRow = 0, cursorCol = 2, preferredCol = None,
            undoStack = [\<lparr>h_lines = [[]], h_cursorRow = 0, h_cursorCol = 0\<rparr>],
            redoStack = [], clipboard = None, selectionAnchor = None\<rparr>"
    by (simp add: insert_cmd_def applyOperations_def dispatch_def applyOperations_action_def
        applyOp_def insertStr_def pushUndo_def stripUnsafeCharacters_def Let_def jsLength_def
        toCodePoints_def cpLen_def cpSlice_def cpSliceFrom_def replaceCR_def lineAt_def at_def
        setAt_def splice_def historyLimit_def initialState_def
        calculateInitialCursorPosition_def initialCursorLoop.simps s1 s2)
  have a: "applyOperations env (initialState [] 0) [OpInsert [97, 127, 98]] =
           \<lparr>lines = [[98]], cursorRow = 0, cursorCol = 1, preferredCol = None,
            undoStack = [\<lparr>h_lines = [[]], h_cursorRow = 0, h_cursorCol = 0\<rparr>],
            redoStack = [], clipboard = None, selectionAnchor = None\<rparr>"
    by (simp add: applyOperations_def dispatch_def applyOperations_action_def
        applyOp_def insertStr_def pushUndo_def stripUnsafeCharacters_def Let_def jsLength_def
        toCodePoints_def cpLen_def cpSlice_def cpSliceFrom_def replaceCR_def lineAt_def at_def
        setAt_def splice_def historyLimit_def initialState_def
        calculateInitialCursorPosition_def initialCursorLoop.simps s3 s4)
  show ?thesis
    unfolding i a by (simp add: undo_cmd_def dispatch_def undo_action_def at_def)
qed

text \<open>
  Claim C4, witness: the environment whose \<open>stripAnsi\<close> is the identity.
\<close>

theorem insert_strips_delete_code_point_witness:
  "(\<forall>s. \<not> (27 \<notin> set s \<and> 155 \<notin> set s \<and> stripAnsi plainEnv s \<noteq> s)) \<and>
   lines (insert_cmd plainEnv (initialState [] 0) [97, 127, 98]) = [[97, 98]] \<and>
   cursorCol (insert_cmd plainEnv (initialState [] 0) [97, 127, 98]) = 2 \<and>
   lines (undo_cmd plainEnv (insert_cmd plainEnv (initialState [] 0) [97, 127, 98])) = [[]]"
proof -
  have h: "\<forall>s. 27 \<notin> set s \<and> 155 \<notin> set s \<longrightarrow> stripAnsi plainEnv s = s"
    by (simp add: plainEnv_def)
  have h': "\<forall>s. \<not> (27 \<notin> set s \<and> 155 \<notin> set s \<and> stripAnsi plainEnv s \<noteq> s)"
    by (simp add: plainEnv_def)
  from insert_strips_delete_code_point [OF h] h' show ?thesis by simp
qed

text \<open>
  Claim C4, counterexample to the claim as stated: with no string a valid path, the
  \<open>insert\<close> command on the empty buffer does not produce \<open>["b"]\<close> with the cursor
  at \<open>(0, 1)\<close>.
\<close>

theorem insert_delete_code_point_counterexample:
  "\<not> isValidPath plainEnv [97, 127, 98] \<and> \<not> isValidPath plainEnv [97, 98] \<and>
   lines (initialState [] 0) = [[]] \<and> cursorRow (initialState [] 0) = 0 \<and>
   cursorCol (initialState [] 0) = 0 \<and>
   lines (insert_cmd plainEnv (initialState [] 0) [97, 127, 98]) \<noteq> [[98]] \<and>
   cursorCol (insert_cmd plainEnv (initialState [] 0) [97, 127, 98]) \<noteq> 1"
  by (simp add: ev)

section \<open>The position mapper\<close>

lemma lineStart_0 [simp]: "lineStart ls 0 = 0"
  by (simp add: lineStart_def)

lemma lineStart_Suc:
  "i < length ls \<Longrightarrow> lineStart ls (Suc i) = lineStart ls i + cpLen (ls ! i) + 1"
  by (simp add: lineStart_def take_Suc_conv_app_nth)

lemma lineStart_mono_strict:
  "i < k \<Longrightarrow> k \<le> length ls \<Longrightarrow> lineStart ls i + cpLen (ls ! i) + 1 \<le> lineStart ls k"
proof (induction k)
  case 0
  then show ?case by simp
next
  case (Suc k)
  show ?case
  proof (cases "i = k")
    case True
    with Suc.prems show ?thesis by (simp add: lineStart_Suc)
  next
    case False
    with Suc.prems have "i < k" "k \<le> length ls" "k < length ls" by simp_all
    with Suc.IH have "lineStart ls i + cpLen (ls ! i) + 1 \<le> lineStart ls k" by simp
    with \<open>k < length ls\<close> show ?thesis by (simp add: lineStart_Suc)
  qed
qed

lemma offsetLoop_body:
  assumes "k < length ls" and "lineStart ls k \<le> off"
    and "off \<le> lineStart ls k + cpLen (ls ! k)" and "i \<le> k"
  shows "offsetLoop ls off i (lineStart ls i) = (k, off - lineStart ls k)"
  using assms(4)
proof (induction "k - i" arbitrary: i)
  case 0
  then have "i = k" by simp
  with assms show ?case by (subst offsetLoop.simps) (simp add: Let_def)
next
  case (Suc d)
  then have ik: "i < k" by simp
  with assms(1) have il: "i < length ls" and il1: "i < length ls - 1" by simp_all
  from lineStart_mono_strict [OF ik] assms(1)
  have m: "lineStart ls i + cpLen (ls ! i) + 1 \<le> lineStart ls k" by simp
  with assms(2) have lo: "lineStart ls i + cpLen (ls ! i) < off" by simp
  show ?case
  proof (cases "off = lineStart ls i + cpLen (ls ! i) + 1")
    case True
    with m assms(2) have e: "lineStart ls k = lineStart ls (Suc i)"
      using il by (simp add: lineStart_Suc)
    have "k = Suc i"
    proof (rule ccontr)
      assume "k \<noteq> Suc i"
      with ik have "Suc i < k" by simp
      from lineStart_mono_strict [OF this] assms(1)
      have "lineStart ls (Suc i) + cpLen (ls ! Suc i) + 1 \<le> lineStart ls k" by simp
      with e show False by simp
    qed
    with True il il1 lo show ?thesis
      by (subst offsetLoop.simps) (simp add: Let_def lineStart_Suc)
  next
    case False
    with lo have gt: "lineStart ls i + cpLen (ls ! i) + 1 < off" by simp
    from Suc.hyps(2) ik have "d = k - Suc i" by simp
    from Suc.hyps(1) [OF this] ik
    have "offsetLoop ls off (Suc i) (lineStart ls (Suc i)) = (k, off - lineStart ls k)" by simp
    with gt il il1 show ?thesis
      by (subst offsetLoop.simps) (simp add: Let_def lineStart_Suc)
  qed
qed

lemma offsetLoop_beyond:
  assumes "ls \<noteq> []"
    and "lineStart ls (length ls - 1) + cpLen (ls ! (length ls - 1)) < off"
    and "i < length ls"
  shows "offsetLoop ls off i (lineStart ls i) = (length ls - 1, cpLen (ls ! (length ls - 1)))"
  using assms(3)
proof (induction "length ls - 1 - i" arbitrary: i)
  case 0
  then have i: "i = length ls - 1" by simp
  have "offsetLoop ls off (Suc i) (lineStart ls i + cpLen (ls ! i))
          = (length ls - 1, cpLen (ls ! (length ls - 1)))"
    using i assms(1) by (subst offsetLoop.simps) simp
  with i assms 0 show ?case
    by (subst offsetLoop.simps) (simp add: Let_def)
next
  case (Suc d)
  then have il1: "i < length ls - 1" and il: "i < length ls" by simp_all
  from lineStart_mono_strict [OF il1, of ls]
  have "lineStart ls i + cpLen (ls ! i) + 1 \<le> lineStart ls (length ls - 1)" by simp
  with assms(2) have gt: "lineStart ls i + cpLen (ls ! i) + 1 < off" by simp
  from Suc.hyps(2) have "d = length ls - 1 - Suc i" by simp
  from Suc.hyps(1) [OF this] il1
  have "offsetLoop ls off (Suc i) (lineStart ls (Suc i))
          = (length ls - 1, cpLen (ls ! (length ls - 1)))" by simp
  with gt il il1 show ?case
    by (subst offsetLoop.simps) (simp add: Let_def lineStart_Suc)
qed

lemma splitNL_nonempty [simp]: "splitNL s \<noteq> []"
  by (induction s) simp_all

lemma lineStart_ge: "i \<le> length ls \<Longrightarrow> i \<le> lineStart ls i"
proof (induction i)
  case 0
  then show ?case by simp
next
  case (Suc i)
  then show ?case by (simp add: lineStart_Suc)
qed

lemma offsetToLogicalPos_body:
  assumes "i < length (splitNL text)" and "lineStart (splitNL text) i \<le> offset"
    and "offset \<le> lineStart (splitNL text) i + cpLen (splitNL text ! i)"
  shows "offsetToLogicalPos text offset = (i, offset - lineStart (splitNL text) i)"
proof (cases "offset = 0")
  case True
  with assms(2) have "lineStart (splitNL text) i = 0" by simp
  with lineStart_ge [of i "splitNL text"] assms(1) have "i = 0" by simp
  with True show ?thesis by (simp add: offsetToLogicalPos_def)
next
  case False
  from offsetLoop_body [OF assms, of 0] False show ?thesis
    by (simp add: offsetToLogicalPos_def)
qed

lemma offsetToLogicalPos_beyond:
  assumes "lineStart (splitNL text) (length (splitNL text) - 1)
             + cpLen (last (splitNL text)) < offset"
  shows "offsetToLogicalPos text offset
           = (length (splitNL text) - 1, cpLen (last (splitNL text)))"
proof -
  have l: "last (splitNL text) = splitNL text ! (length (splitNL text) - 1)"
    by (simp add: last_conv_nth)
  from assms have "offset \<noteq> 0" by simp
  with offsetLoop_beyond [of "splitNL text" offset 0] assms l show ?thesis
    by (simp add: offsetToLogicalPos_def)
qed

text \<open>
  Claim C8. \<open>offsetToLogicalPos\<close> follows the piecewise definition. With the lines of
  the text split at newlines, and line \<open>i\<close> starting at the offset \<open>lineStart i\<close> (the
  lengths of the lines before it and of their separators): offset 0 maps to \<open>(0, 0)\<close>;
  an offset in the body of line \<open>i\<close>, from its start to its end, maps to row \<open>i\<close> and
  the column offset minus the start; the offset past the separator of a line \<open>i\<close> that
  is not the last maps to \<open>(i + 1, 0)\<close>; the offset past the end of the last line
  maps to the end of that line, and so does every offset beyond the total length.
\<close>

theorem offsetToLogicalPos_piecewise:
  "offsetToLogicalPos text 0 = (0, 0) \<and>
   (\<forall>i offset. i < length (splitNL text) \<and> lineStart (splitNL text) i \<le> offset \<and>
        offset \<le> lineStart (splitNL text) i + cpLen (splitNL text ! i)
      \<longrightarrow> offsetToLogicalPos text offset = (i, offset - lineStart (splitNL text) i)) \<and>
   (\<forall>i. i + 1 < length (splitNL text)
      \<longrightarrow> offsetToLogicalPos text (lineStart (splitNL text) i + cpLen (splitNL text ! i) + 1)
            = (i + 1, 0)) \<and>
   (\<forall>i. i + 1 = length (splitNL text)
      \<longrightarrow> offsetToLogicalPos text (lineStart (splitNL text) i + cpLen (splitNL text ! i) + 1)
            = (i, cpLen (splitNL text ! i))) \<and>
   (\<forall>offset. lineStart (splitNL text) (length (splitNL text) - 1)
                 + cpLen (last (splitNL text)) < offset
      \<longrightarrow> offsetToLogicalPos text offset
            = (length (splitNL text) - 1, cpLen (last (splitNL text))))"
proof (intro conjI allI impI)
  show "offsetToLogicalPos text 0 = (0, 0)" by (simp add: offsetToLogicalPos_def)
next
  fix i offset
  assume "i < length (splitNL text) \<and> lineStart (splitNL text) i \<le> offset \<and>
        offset \<le> lineStart (splitNL text) i + cpLen (splitNL text ! i)"
  then show "offsetToLogicalPos text offset = (i, offset - lineStart (splitNL text) i)"
    using offsetToLogicalPos_body by blast
next
  fix i
  assume a: "i + 1 < length (splitNL text)"
  then have s: "lineStart (splitNL text) (i + 1)
                  = lineStart (splitNL text) i + cpLen (splitNL text ! i) + 1"
    using lineStart_Suc [of i "splitNL text"] by simp
  from offsetToLogicalPos_body [OF a, of "lineStart (splitNL text) (i + 1)"]
  have "offsetToLogicalPos text (lineStart (splitNL text) (i + 1)) = (i + 1, 0)" by simp
  with s show "offsetToLogicalPos text (lineStart (splitNL text) i + cpLen (splitNL text ! i) + 1)
            = (i + 1, 0)" by simp
next
  fix i
  assume a: "i + 1 = length (splitNL text)"
  then have i: "i = length (splitNL text) - 1" by simp
  have l: "last (splitNL text) = splitNL text ! (length (splitNL text) - 1)"
    by (simp add: last_conv_nth)
  have "offsetToLogicalPos text (lineStart (splitNL text) i + cpLen (splitNL text ! i) + 1)
          = (length (splitNL text) - 1, cpLen (last (splitNL text)))"
    by (rule offsetToLogicalPos_beyond) (use i l in simp)
  with i l show "offsetToLogicalPos text (lineStart (splitNL text) i + cpLen (splitNL text ! i) + 1)
            = (i, cpLen (splitNL text ! i))" by simp
next
  fix offset
  assume "lineStart (splitNL text) (length (splitNL text) - 1)
                 + cpLen (last (splitNL text)) < offset"
  then show "offsetToLogicalPos text offset
            = (length (splitNL text) - 1, cpLen (last (splitNL text)))"
    by (rule offsetToLogicalPos_beyond)
qed

text \<open>
  Claim C8, witness: the text \<open>ab\<close>, newline, \<open>cd\<close>, at the offsets 0, 4 (body
  of line 1), 3 (past the separator of line 0), 6 (past the end of the last line) and 9
  (beyond the total length).
\<close>

theorem offsetToLogicalPos_piecewise_witness:
  "splitNL [97, 98, 10, 99, 100] = [[97, 98], [99, 100]] \<and>
   offsetToLogicalPos [97, 98, 10, 99, 100] 0 = (0, 0) \<and>
   offsetToLogicalPos [97, 98, 10, 99, 100] 4 = (1, 1) \<and>
   offsetToLogicalPos [97, 98, 10, 99, 100] 3 = (1, 0) \<and>
   offsetToLogicalPos [97, 98, 10, 99, 100] 6 = (1, 2) \<and>
   offsetToLogicalPos [97, 98, 10, 99, 100] 9 = (1, 2)"
proof -
  have sp: "splitNL [97, 98, 10, 99, 100] = [[97, 98], [99, 100]]" by simp
  note t = offsetToLogicalPos_piecewise [of "[97, 98, 10, 99, 100]", unfolded sp]
  have l0: "lineStart [[97, 98], [99, 100]] 0 = 0"
    by (simp add: lineStart_def)
  have l1: "lineStart [[97, 98], [99, 100]] 1 = 3"
    by (simp add: lineStart_def cpLen_def toCodePoints_def)
  have c0: "cpLen [97, 98] = 2" and c1: "cpLen [99, 100] = 2"
    by (simp_all add: cpLen_def toCodePoints_def)
  have n0: "[[97, 98], [99, 100]] ! 0 = [97, 98]" and n1: "[[97, 98], [99, 100]] ! 1 = [99, 100]"
    and la: "last [[97, 98], [99, 100]] = [99, 100]"
    and len: "length [[97, 98], [99, 100]] = 2"
    by simp_all
  have ar: "(4::nat) - 3 = 1" "(0::nat) + 2 + 1 = 3" "(0::nat) + 1 = 1" "(3::nat) + 2 + 1 = 6"
    "(2::nat) - 1 = 1"
    by simp_all
  from t have a: "offsetToLogicalPos [97, 98, 10, 99, 100] 0 = (0, 0)" by (rule conjunct1)
  have "1 < length [[97, 98], [99, 100]] \<and> lineStart [[97, 98], [99, 100]] 1 \<le> 4 \<and>
        4 \<le> lineStart [[97, 98], [99, 100]] 1 + cpLen ([[97, 98], [99, 100]] ! 1)"
    by (simp only: l1 n1 c1 len) simp
  from t [THEN conjunct2, THEN conjunct1, rule_format, OF this]
  have b: "offsetToLogicalPos [97, 98, 10, 99, 100] 4 = (1, 1)"
    by (simp only: l1 ar)
  have "0 + 1 < length [[97, 98], [99, 100]]" by simp
  from t [THEN conjunct2, THEN conjunct2, THEN conjunct1, rule_format, OF this]
  have c: "offsetToLogicalPos [97, 98, 10, 99, 100] 3 = (1, 0)"
    by (simp only: l0 n0 c0 ar)
  have "1 + 1 = length [[97, 98], [99, 100]]" by simp
  from t [THEN conjunct2, THEN conjunct2, THEN conjunct2, THEN conjunct1, rule_format, OF this]
  have d: "offsetToLogicalPos [97, 98, 10, 99, 100] 6 = (1, 2)"
    by (simp only: l1 n1 c1 ar)
  have "lineStart [[97, 98], [99, 100]] (length [[97, 98], [99, 100]] - 1)
          + cpLen (last [[97, 98], [99, 100]]) < 9"
    by (simp add: len la c1 l1 [unfolded One_nat_def])
  from t [THEN conjunct2, THEN conjunct2, THEN conjunct2, THEN conjunct2, rule_format, OF this]
  have e: "offsetToLogicalPos [97, 98, 10, 99, 100] 9 = (1, 2)"
    by (simp only: len la c1 ar)
  from sp a b c d e show ?thesis by simp
qed

section \<open>The visual layouter\<close>

lemma visualWidth_simps [simp]:
  "visualWidth sw [] = 0" "visualWidth sw [c] = sw c"
  "visualWidth sw (xs @ ys) = visualWidth sw xs + visualWidth sw ys"
  by (simp_all add: visualWidth_def toCodePoints_def)

lemma visualWidth_take: "visualWidth sw (take m xs) \<le> visualWidth sw xs"
proof -
  have "visualWidth sw xs = visualWidth sw (take m xs) + visualWidth sw (drop m xs)"
    using visualWidth_simps(3) [of sw "take m xs" "drop m xs"] by simp
  then show ?thesis by simp
qed

lemma fits_single: "fits sw vw [c]"
  by (auto simp add: fits_def)

lemma fits_empty: "fits sw vw []"
  by (simp add: fits_def)

lemma chunkInv_step:
  assumes "chunkInv sw vw cps pos i chunk w n nAtWB" and "i < length cps"
    and "w + sw (cps ! i) \<le> vw" and "m \<le> n + 1"
  shows "chunkInv sw vw cps pos (i + 1) (chunk @ [cps ! i]) (w + sw (cps ! i)) (n + 1) m"
  using assms by (simp add: chunkInv_def take_Suc_conv_app_nth)

lemma chunkInv_break:
  assumes "chunkInv sw vw cps pos i chunk w n nAtWB"
  shows "fits sw vw (take nAtWB (drop pos cps))" and "fits sw vw chunk"
proof -
  from assms have c: "chunk = take n (drop pos cps)" and w: "visualWidth sw chunk \<le> vw"
    and le: "nAtWB \<le> n"
    by (auto simp add: chunkInv_def)
  from c le have "take nAtWB (drop pos cps) = take nAtWB chunk"
    by (simp add: min_def)
  with visualWidth_take [of sw nAtWB chunk] w
  have "visualWidth sw (take nAtWB (drop pos cps)) \<le> vw" by simp
  then show "fits sw vw (take nAtWB (drop pos cps))" by (simp add: fits_def)
  from w show "fits sw vw chunk" by (simp add: fits_def)
qed

lemma chunkLoop_fits:
  "chunkInv sw vw cps pos i chunk w n nAtWB \<Longrightarrow>
   fits sw vw (fst (chunkLoop sw vw cps pos i chunk w n lastWB nAtWB))"
proof (induction sw vw cps pos i chunk w n lastWB nAtWB rule: chunkLoop.induct)
  case (1 sw vw cps pos i chunk w n lastWB nAtWB)
  note inv = "1.prems"
  show ?case
  proof (cases "i < length cps")
    case False
    with chunkInv_break(2) [OF inv] show ?thesis
      by (subst chunkLoop.simps) simp
  next
    case inb: True
    show ?thesis
    proof (cases "w + sw (cps ! i) > vw")
      case True
      with inb chunkInv_break [OF inv] show ?thesis
        by (subst chunkLoop.simps) (simp add: Let_def fits_single)
    next
      case False
      then have le: "w + sw (cps ! i) \<le> vw" by simp
      show ?thesis
      proof (cases "cps ! i = 32")
        case sp: True
        have "chunkInv sw vw cps pos (i + 1) (chunk @ [cps ! i]) (w + sw (cps ! i)) (n + 1)
                (n + 1 - 1)"
          by (rule chunkInv_step [OF inv inb le]) simp
        from "1.IH"(1) [OF inb refl refl False sp this]
        have "fits sw vw (fst (chunkLoop sw vw cps pos (i + 1) (chunk @ [cps ! i])
                (w + sw (cps ! i)) (n + 1) (int i) (n + 1 - 1)))" .
        with inb False sp show ?thesis
          by (subst chunkLoop.simps) (simp add: Let_def)
      next
        case nsp: False
        have "chunkInv sw vw cps pos (i + 1) (chunk @ [cps ! i]) (w + sw (cps ! i)) (n + 1) nAtWB"
          by (rule chunkInv_step [OF inv inb le]) (use inv in \<open>simp add: chunkInv_def\<close>)
        from "1.IH"(2) [OF inb refl refl False nsp this]
        have "fits sw vw (fst (chunkLoop sw vw cps pos (i + 1) (chunk @ [cps ! i])
                (w + sw (cps ! i)) (n + 1) lastWB nAtWB))" .
        with inb False nsp show ?thesis
          by (subst chunkLoop.simps) (simp add: Let_def)
      qed
    qed
  qed
qed

lemma nextChunk_fits: "fits sw vw (fst (nextChunk sw vw cps pos))"
proof -
  have "fits sw vw (fst (chunkLoop sw vw cps pos pos [] 0 0 (- 1) 0))"
    by (rule chunkLoop_fits) (simp add: chunkInv_def)
  then show ?thesis
    by (simp add: nextChunk_def Let_def fits_single)
qed

lemma mapCursor_visualLines [simp]:
  "visualLines (mapCursor lc li pos n acc) = visualLines acc"
  by (simp add: mapCursor_def Let_def)

lemma wrapLoop_fits:
  assumes "\<forall>l \<in> set (visualLines acc). fits sw vw l"
  shows "\<forall>l \<in> set (visualLines (wrapLoop sw vw lc li cps pos acc)). fits sw vw l"
  using assms
proof (induction sw vw lc li cps pos acc rule: wrapLoop.induct)
  case (1 sw vw lc li cps pos acc)
  show ?case
  proof (cases "pos < length cps")
    case False
    with "1.prems" show ?thesis by (subst wrapLoop.simps) simp
  next
    case True
    let ?r = "nextChunk sw vw cps pos"
    let ?acc1 = "acc\<lparr>logicalToVisualMap :=
                     pushAt (logicalToVisualMap acc) li (length (visualLines acc), pos),
                   visualToLogicalMap := visualToLogicalMap acc @ [(li, pos)],
                   visualLines := visualLines acc @ [fst ?r]\<rparr>"
    let ?acc2 = "mapCursor lc li pos (snd ?r) ?acc1"
    have "\<forall>l \<in> set (visualLines ?acc2). fits sw vw l"
      using "1.prems" nextChunk_fits [of sw vw cps pos] by simp
    from "1.IH" [OF True refl refl refl refl refl this]
    have "\<forall>l \<in> set (visualLines (wrapLoop sw vw lc li cps (advancePos cps pos (snd ?r)) ?acc2)).
            fits sw vw l" .
    with True show ?thesis
      by (subst wrapLoop.simps) (simp add: Let_def)
  qed
qed

lemma layoutLine_fits:
  assumes "\<forall>l \<in> set (visualLines acc). fits sw vw l"
  shows "\<forall>l \<in> set (visualLines (layoutLine sw vw lc acc p)). fits sw vw l"
proof -
  obtain li logLine where p: "p = (li, logLine)" by (cases p)
  let ?acc0 = "acc\<lparr>logicalToVisualMap := logicalToVisualMap acc @ [[]]\<rparr>"
  have a0: "\<forall>l \<in> set (visualLines ?acc0). fits sw vw l" using assms by simp
  have w: "\<forall>l \<in> set (visualLines (wrapLoop sw vw lc li (toCodePoints logLine) 0 ?acc0)).
             fits sw vw l"
    by (rule wrapLoop_fits [OF a0])
  show ?thesis
  proof (cases "jsLength logLine = 0")
    case True
    with assms p show ?thesis by (simp add: layoutLine_def Let_def fits_empty)
  next
    case False
    with w p show ?thesis
      by (simp add: layoutLine_def Let_def split: option.splits)
  qed
qed

lemma foldl_layoutLine_fits:
  assumes "\<forall>l \<in> set (visualLines acc). fits sw vw l"
  shows "\<forall>l \<in> set (visualLines (foldl (layoutLine sw vw lc) acc ps)). fits sw vw l"
  using assms
proof (induction ps arbitrary: acc)
  case Nil
  then show ?case by simp
next
  case (Cons p ps)
  from Cons.IH [OF layoutLine_fits [OF Cons.prems]] show ?case by simp
qed

lemma calculateVisualLayout_fits:
  "\<forall>l \<in> set (visualLines (calculateVisualLayout sw ls lc vw)). fits sw vw l"
proof -
  let ?init = "\<lparr>visualLines = [], visualCursor = (0, 0), logicalToVisualMap = [],
                visualToLogicalMap = []\<rparr>"
  have "\<forall>l \<in> set (visualLines (foldl (layoutLine sw vw lc) ?init (zip [0..<length ls] ls))).
          fits sw vw l"
    by (rule foldl_layoutLine_fits) simp
  then show ?thesis
    by (simp add: calculateVisualLayout_def Let_def fits_empty)
qed

text \<open>
  Claim C9. For every list of logical lines, every logical cursor and every viewport
  width of at least 1, every visual line of the layout has a visual width of at most the
  viewport width, or is a single code point wider than the viewport.
\<close>

theorem visual_lines_fit_viewport:
  assumes "1 \<le> width"
  shows "\<forall>l \<in> set (visualLines (calculateVisualLayout sw logicalLines logicalCursor width)).
           visualWidth sw l \<le> width \<or> (\<exists>c. l = [c] \<and> sw c > width)"
  using calculateVisualLayout_fits [of sw logicalLines logicalCursor width]
  by (simp add: fits_def)

text \<open>
  Claim C9, witness: three wide code points in a viewport of width 4 give two lines of
  width 4 and 2; a narrow and a wide code point in a viewport of width 1 give the narrow
  one and then the wide one alone on its line, of width 2.
\<close>

theorem visual_lines_fit_viewport_witness:
  "(1::nat) \<le> 4 \<and>
   visualLines (calculateVisualLayout cellWidth [[26085, 26412, 35486]] (0, 3) 4)
     = [[26085, 26412], [35486]] \<and>
   visualWidth cellWidth [26085, 26412] \<le> 4 \<and>
   visualWidth cellWidth [35486] \<le> 4 \<and>
   (1::nat) \<le> 1 \<and>
   visualLines (calculateVisualLayout cellWidth [[97, 26085]] (0, 0) 1) = [[97], [26085]] \<and>
   visualWidth cellWidth [97] \<le> 1 \<and>
   \<not> visualWidth cellWidth [26085] \<le> 1 \<and>
   cellWidth 26085 > 1"
proof -
  have v1: "visualLines (calculateVisualLayout cellWidth [[26085, 26412, 35486]] (0, 3) 4)
     = [[26085, 26412], [35486]]"
    by (simp add: ev cellWidth_def)
  have v2: "visualLines (calculateVisualLayout cellWidth [[97, 26085]] (0, 0) 1)
     = [[97], [26085]]"
    by (simp add: ev cellWidth_def)
  have h1: "(1::nat) \<le> 4" by simp
  have h2: "(1::nat) \<le> 1" by simp
  from visual_lines_fit_viewport [OF h1, of cellWidth "[[26085, 26412, 35486]]" "(0, 3)"]
  have a: "visualWidth cellWidth [26085, 26412] \<le> 4 \<and> visualWidth cellWidth [35486] \<le> 4"
    unfolding v1 by (simp add: cellWidth_def)
  from visual_lines_fit_viewport [OF h2, of cellWidth "[[97, 26085]]" "(0, 0)"]
  have b: "visualWidth cellWidth [97] \<le> 1"
    unfolding v2 by (simp add: cellWidth_def)
  have c: "\<not> visualWidth cellWidth [26085] \<le> 1 \<and> cellWidth 26085 > 1"
    by (simp add: cellWidth_def)
  from v1 v2 a b c show ?thesis by simp
qed

end
